theory Spec2Isabelle
  imports Complex_Main
begin

section \<open>Text, exceptions and table cells\<close>

text \<open>
  A Python \<open>str\<close> is a sequence of Unicode code points; \<open>ustr\<close> holds the code points as
  natural numbers (\<open>$\<close> is 36, the pound sign 163, the euro sign 8364). \<open>u\<close> turns an ASCII
  literal into such a text.
\<close>

type_synonym ustr = "nat list"

definition u :: "string \<Rightarrow> ustr" where
  "u s = map of_char s"

text \<open>
  What the interpreter knows of Unicode, as far as \<open>parsing.py\<close> and its libraries use
  it. The tables are not part of the sources, and the crawl and the table steps take
  them as a parameter:
  \<^item> \<open>str_lower\<close>: \<open>str.lower()\<close>;
  \<^item> \<open>decimal\<close>: the value of a code point that is a decimal digit, in any script, and
    \<open>None\<close> for any other code point. It decides the class \<open>\d\<close> of \<open>re\<close> and the digits
    that \<open>int\<close> and \<open>float\<close> read;
  \<^item> \<open>ignore_case p c\<close>: under the flag \<open>(?i)\<close> the character \<open>p\<close> of a pattern matches
    the character \<open>c\<close> of a text.
\<close>

record unicode =
  str_lower :: "ustr \<Rightarrow> ustr"
  decimal :: "nat \<Rightarrow> nat option"
  ignore_case :: "nat \<Rightarrow> nat \<Rightarrow> bool"

text \<open>
  \<open>str.lower()\<close> on ASCII text: the letters A to Z are lowered, any other code point is
  left as it is. The rating conversion is written with it (no code point outside ASCII
  is lowered to a letter of the five rating words).
\<close>

definition lower_cp :: "nat \<Rightarrow> nat" where
  "lower_cp c = (if 65 \<le> c \<and> c \<le> 90 then c + 32 else c)"

definition lower :: "ustr \<Rightarrow> ustr" where
  "lower s = map lower_cp s"

text \<open>The places of \<open>parsing.py\<close> and of its libraries that raise a \<open>ValueError\<close>.\<close>

datatype value_error =
    Not_found_the_category
  | Invalid_literal_for_int
  | Rating_must_be_parsable
  | Could_not_convert_string_to_float
  | Price_columns_dont_exist
  | Product_price_columns_dont_exist

text \<open>
  The exceptions the code raises or receives from the transport, all of them subclasses
  of \<open>Exception\<close>. In aiohttp \<open>ClientResponseError\<close>, \<open>ClientConnectionError\<close> and
  \<open>ConnectionTimeoutError\<close> are subclasses of \<open>ClientError\<close>; \<open>TimeoutError\<close> is the
  one of asyncio, raised when the total timeout runs out.
\<close>

datatype exn =
    ClientResponseError nat
  | ClientConnectionError
  | ConnectionTimeoutError
  | TimeoutError
  | ValueError value_error
  | TypeError
  | AttributeError
  | IndexError
  | KeyError

text \<open>
  A cell of a \<open>DataFrame\<close> column of object dtype: missing (\<open>NaN\<close>), a string, or a
  float. A float is held as the rational its decimal literal denotes (Python keeps the
  nearest double).
\<close>

datatype cell = NaN | Str ustr | Num rat

section \<open>Pages and their parsers\<close>

text \<open>
  The markup of a page, as the selectors of \<open>parsing.py\<close> see it through BeautifulSoup
  (the HTML parser itself is a library and is taken as given). Each field is what one
  selector returns on the markup:
  \<^item> \<open>category_anchors\<close>: \<open>select("ul a[href^='../books/']")\<close>, for each anchor its
    \<open>get_text(strip=True)\<close> and its \<open>href\<close> (the selector asks for the attribute);
  \<^item> \<open>product_anchors\<close>: \<open>select("article.product_pod > h3 > a")\<close>, for each anchor
    \<open>get("href")\<close>, \<open>None\<close> when the anchor has no such attribute;
  \<^item> \<open>pager_current\<close>: \<open>select_one("ul.pager li.current")\<close>, its stripped text;
  \<^item> \<open>product_name\<close>: \<open>select_one("article.product_page div.col-sm-6.product_main > h1")\<close>,
    its stripped text;
  \<^item> \<open>star_rating\<close>: the \<open>p\<close> element whose class starts with \<open>star-rating\<close>, its list
    of class tokens;
  \<^item> \<open>table_rows\<close>: \<open>select_one("article.product_page > table.table.table-striped")\<close>,
    for each \<open>tr\<close> the stripped text of its first \<open>th\<close> and of its first \<open>td\<close>.
  \<open>select_one\<close> returns \<open>None\<close> when nothing matches, and a tag is always truthy.
\<close>

record page =
  category_anchors :: "(ustr \<times> ustr) list"
  product_anchors :: "ustr option list"
  pager_current :: "ustr option"
  product_name :: "ustr option"
  star_rating :: "ustr list option"
  table_rows :: "(ustr option \<times> ustr option) list option"

text \<open>
  A Python \<open>dict\<close> keeps insertion order: storing under a key that is present replaces
  the value where the key stands, storing under a new key appends.
\<close>

fun dict_set :: "'k \<Rightarrow> 'v \<Rightarrow> ('k \<times> 'v) list \<Rightarrow> ('k \<times> 'v) list" where
  "dict_set k v [] = [(k, v)]"
| "dict_set k v ((k', v') # d) =
     (if k' = k then (k, v) # d else (k', v') # dict_set k v d)"

definition dict_update :: "('k \<times> 'v) list \<Rightarrow> ('k \<times> 'v) list \<Rightarrow> ('k \<times> 'v) list" where
  "dict_update d kvs = foldl (\<lambda>d (k, v). dict_set k v d) d kvs"

text \<open>A dict display or comprehension: the items are stored one after the other.\<close>

definition dict_of :: "('k \<times> 'v) list \<Rightarrow> ('k \<times> 'v) list" where
  "dict_of kvs = dict_update [] kvs"

text \<open>
  \<open>BookScraper._parse_category_paths\<close>. The slice \<open>href[3:-11]\<close> ends eleven places
  before the end of the text (at 0 when the text is shorter) and starts at place 3.
\<close>

definition parse_category_paths :: "unicode \<Rightarrow> page \<Rightarrow> (ustr \<times> ustr) list" where
  "parse_category_paths uc markup =
     dict_of (map (\<lambda>(text, href). (str_lower uc text, drop 3 (take (length href - 11) href)))
                  (category_anchors markup))"

text \<open>
  \<open>BookScraper._parse_product_paths\<close>: \<open>element.get("href")[9:]\<close> for each anchor; slicing
  \<open>None\<close> raises \<open>TypeError\<close>.
\<close>

fun slice_hrefs :: "ustr option list \<Rightarrow> exn + ustr list" where
  "slice_hrefs [] = Inr []"
| "slice_hrefs (None # hs) = Inl TypeError"
| "slice_hrefs (Some h # hs) =
     (case slice_hrefs hs of Inl e \<Rightarrow> Inl e | Inr ps \<Rightarrow> Inr (drop 9 h # ps))"

definition parse_product_paths :: "page \<Rightarrow> exn + ustr list" where
  "parse_product_paths markup = slice_hrefs (product_anchors markup)"

text \<open>
  \<open>int(c)\<close> for a text of one character: its value when it is a decimal digit, a
  \<open>ValueError\<close> otherwise.
\<close>

definition int_of_char :: "unicode \<Rightarrow> nat \<Rightarrow> exn + nat" where
  "int_of_char uc c =
     (case decimal uc c of
        Some d \<Rightarrow> Inr d
      | None \<Rightarrow> Inl (ValueError Invalid_literal_for_int))"

text \<open>
  \<open>BookScraper._get_page_count\<close>: \<open>range(2, int(text[-1]) + 1)\<close> when the indicator is
  there, \<open>range(0)\<close> otherwise; \<open>text[-1]\<close> raises \<open>IndexError\<close> on the empty text. A
  range is held as the list of its members.
\<close>

definition get_page_count :: "unicode \<Rightarrow> page \<Rightarrow> exn + nat list" where
  "get_page_count uc markup =
     (case pager_current markup of
        Some text \<Rightarrow>
          (if text = [] then Inl IndexError
           else (case int_of_char uc (last text) of
                   Inl e \<Rightarrow> Inl e
                 | Inr n \<Rightarrow> Inr [2 ..< n + 1]))
      | None \<Rightarrow> Inr [])"

text \<open>
  The \<open>Rating\<close> entry of \<open>_parse_product_info\<close>:
  \<open>select_one(...).get("class", "")[1]\<close>, with \<open>AttributeError\<close> when the element is
  missing and \<open>IndexError\<close> when it has fewer than two class tokens.
\<close>

definition rating_token :: "page \<Rightarrow> exn + ustr" where
  "rating_token markup =
     (case star_rating markup of
        None \<Rightarrow> Inl AttributeError
      | Some classes \<Rightarrow> (if length classes < 2 then Inl IndexError else Inr (classes ! 1)))"

text \<open>
  The comprehension over the rows of the table: \<open>tr.select_one("th").get_text(...)\<close>
  and the same for \<open>td\<close>, each an \<open>AttributeError\<close> when the cell is missing.
\<close>

fun table_items :: "(ustr option \<times> ustr option) list \<Rightarrow> exn + (ustr \<times> ustr) list" where
  "table_items [] = Inr []"
| "table_items ((None, td) # trs) = Inl AttributeError"
| "table_items ((Some k, None) # trs) = Inl AttributeError"
| "table_items ((Some k, Some v) # trs) =
     (case table_items trs of Inl e \<Rightarrow> Inl e | Inr kvs \<Rightarrow> Inr ((k, v) # kvs))"

type_synonym raw_record = "(ustr \<times> ustr) list"

text \<open>
  \<open>BookScraper._parse_product_info\<close>. \<open>get_text\<close> on a missing title element raises
  \<open>AttributeError\<close>; when the title's text is empty neither \<open>return\<close> is reached and the
  function returns \<open>None\<close>.
\<close>

definition parse_product_info :: "page \<Rightarrow> ustr \<Rightarrow> exn + raw_record option" where
  "parse_product_info markup url =
     (case product_name markup of
        None \<Rightarrow> Inl AttributeError
      | Some name \<Rightarrow>
          (if name \<noteq> [] then
             (case table_rows markup of
                Some trs \<Rightarrow>
                  (case rating_token markup of
                     Inl e \<Rightarrow> Inl e
                   | Inr rating \<Rightarrow>
                       (case table_items trs of
                          Inl e \<Rightarrow> Inl e
                        | Inr kvs \<Rightarrow>
                            Inr (Some (dict_update
                              (dict_of [(u ''Product name'', name), (u ''URL'', url),
                                        (u ''Rating'', rating)])
                              (dict_of kvs)))))
              | None \<Rightarrow>
                  (case rating_token markup of
                     Inl e \<Rightarrow> Inl e
                   | Inr rating \<Rightarrow>
                       Inr (Some (dict_of [(u ''Product name'', name), (u ''URL'', url),
                                           (u ''Rating'', rating)]))))
           else Inr None))"

section \<open>Transport and cohorts\<close>

text \<open>
  What the crawl prints when something goes wrong: one constructor for each message of
  the handlers of \<open>_collect_paths\<close> and \<open>scrape\<close>, and one for the message of an empty
  result.
\<close>

datatype diag =
    The_HTTP_Error
  | The_timeout_is_reached
  | The_parsing_result_in_the_error
  | The_error
  | Paths_are_not_found

text \<open>
  The outside world of a crawl: the paths requested so far, in the order the requests
  were made, and the diagnostics printed so far. (The trace line that
  \<open>_request_to_page\<close> prints for a successful response is left out: within a cohort its
  place depends on the order in which the responses arrive.)
\<close>

record world =
  requests :: "ustr list"
  printed :: "diag list"

definition emit :: "diag list \<Rightarrow> world \<Rightarrow> world" where
  "emit ds w = w\<lparr>printed := printed w @ ds\<rparr>"

text \<open>
  The site: what it answers to the \<open>n\<close>-th request of the session, made for a given
  path. An answer is the body of the page, or the exception that \<open>raise_for_status\<close> or
  the connection raises.
\<close>

type_synonym net = "nat \<Rightarrow> ustr \<Rightarrow> exn + page"

text \<open>\<open>BookScraper._request_to_page\<close>.\<close>

definition request_to_page :: "net \<Rightarrow> ustr \<Rightarrow> world \<Rightarrow> (exn + page) \<times> world" where
  "request_to_page net path w =
     (net (length (requests w)) path, w\<lparr>requests := requests w @ [path]\<rparr>)"

text \<open>
  \<open>async with TaskGroup() as tg\<close> around a comprehension of \<open>tg.create_task\<close>: one task
  per path, each making its request. The group ends normally when every task has
  returned, and then \<open>task.result()\<close> is the body; it raises an exception group when a
  task has failed. The group is taken here with the exception of every failing member
  (asyncio cancels the members still running at the first failure, so the group it
  raises can hold fewer of them, but never none).
\<close>

fun create_tasks :: "net \<Rightarrow> ustr list \<Rightarrow> world \<Rightarrow> (exn + page) list \<times> world" where
  "create_tasks net [] w = ([], w)"
| "create_tasks net (path # paths) w =
     (case request_to_page net path w of
        (r, w') \<Rightarrow> (case create_tasks net paths w' of (rs, w'') \<Rightarrow> (r # rs, w'')))"

fun failures :: "('e + 'a) list \<Rightarrow> 'e list" where
  "failures [] = []"
| "failures (Inl e # rs) = e # failures rs"
| "failures (Inr x # rs) = failures rs"

fun task_results :: "('e + 'a) list \<Rightarrow> 'a list" where
  "task_results [] = []"
| "task_results (Inl e # rs) = task_results rs"
| "task_results (Inr x # rs) = x # task_results rs"

definition task_group :: "net \<Rightarrow> ustr list \<Rightarrow> world \<Rightarrow> (exn list + page list) \<times> world" where
  "task_group net paths w =
     (case create_tasks net paths w of
        (rs, w') \<Rightarrow>
          (if failures rs = [] then (Inr (task_results rs), w') else (Inl (failures rs), w')))"

definition is_ClientError :: "exn \<Rightarrow> bool" where
  "is_ClientError e =
     (case e of
        ClientResponseError status \<Rightarrow> True
      | ClientConnectionError \<Rightarrow> True
      | ConnectionTimeoutError \<Rightarrow> True
      | _ \<Rightarrow> False)"

text \<open>
  The chain of \<open>except*\<close> clauses that follows both task groups. Each clause takes from
  the group the exceptions of its class that no earlier clause took, and prints its
  message if it took any. The clauses for \<open>KeyboardInterrupt\<close> and \<open>SystemExit\<close> match
  no exception of \<open>exn\<close>; the last clause, for \<open>Exception\<close>, takes all that is left,
  so nothing is raised again.
\<close>

definition except_star :: "exn list \<Rightarrow> diag list" where
  "except_star g =
     (let g1 = filter (\<lambda>e. \<not> is_ClientError e) g;
          g2 = filter (\<lambda>e. e \<noteq> ConnectionTimeoutError) g1;
          g3 = filter (\<lambda>e. e \<noteq> AttributeError \<and> e \<noteq> IndexError) g2
      in (if g1 \<noteq> g then [The_HTTP_Error] else []) @
         (if g2 \<noteq> g1 then [The_timeout_is_reached] else []) @
         (if g3 \<noteq> g2 then [The_parsing_result_in_the_error] else []) @
         (if g3 \<noteq> [] then [The_error] else []))"

section \<open>The crawl\<close>

text \<open>
  The decimal numeral of a page number, as the f-string writes it.\<close>

fun digits :: "nat \<Rightarrow> ustr" where
  "digits n = (if n < 10 then [48 + n] else digits (n div 10) @ [48 + n mod 10])"

declare digits.simps [simp del]

definition page_path :: "ustr \<Rightarrow> nat \<Rightarrow> ustr" where
  "page_path path_to_category page_number =
     u ''category/'' @ path_to_category @ u ''/page-'' @ digits page_number @ u ''.html''"

text \<open>
  The loop of the \<open>else\<close> clause of \<open>_collect_paths\<close>:
  \<open>results.extend(self._parse_product_paths(task.result()))\<close> for each task in turn.
\<close>

fun extend_results :: "ustr list \<Rightarrow> page list \<Rightarrow> exn + ustr list" where
  "extend_results results [] = Inr results"
| "extend_results results (body # tasks) =
     (case parse_product_paths body of
        Inl e \<Rightarrow> Inl e
      | Inr ps \<Rightarrow> extend_results (results @ ps) tasks)"

text \<open>The end of \<open>_collect_paths\<close>: the message for an empty result, and the return.\<close>

definition return_results :: "ustr list \<Rightarrow> world \<Rightarrow> (exn + ustr list) \<times> world" where
  "return_results results w =
     (Inr results, if results = [] then emit [Paths_are_not_found] w else w)"

text \<open>\<open>BookScraper._collect_paths\<close>.\<close>

definition collect_paths ::
  "unicode \<Rightarrow> net \<Rightarrow> ustr \<Rightarrow> world \<Rightarrow> (exn + ustr list) \<times> world" where
  "collect_paths uc net category w =
     (case request_to_page net (u ''category/books_1/index.html'') w of
        (Inl e, w1) \<Rightarrow> (Inl e, w1)
      | (Inr index, w1) \<Rightarrow>
          (case map_of (parse_category_paths uc index) (str_lower uc category) of
             None \<Rightarrow> (Inl (ValueError Not_found_the_category), w1)
           | Some path_to_category \<Rightarrow>
               (if path_to_category = [] then (Inl (ValueError Not_found_the_category), w1)
                else
                  (case request_to_page net
                          (u ''category/'' @ path_to_category @ u ''/index.html'') w1 of
                     (Inl e, w2) \<Rightarrow> (Inl e, w2)
                   | (Inr markup, w2) \<Rightarrow>
                       (case parse_product_paths markup of
                          Inl e \<Rightarrow> (Inl e, w2)
                        | Inr results \<Rightarrow>
                            (case get_page_count uc markup of
                               Inl e \<Rightarrow> (Inl e, w2)
                             | Inr page_count \<Rightarrow>
                                 (if page_count \<noteq> [] then
                                    (case task_group net
                                            (map (page_path path_to_category) page_count) w2 of
                                       (Inl errs, w3) \<Rightarrow>
                                         return_results results (emit (except_star errs) w3)
                                     | (Inr tasks, w3) \<Rightarrow>
                                         (case extend_results results tasks of
                                            Inl e \<Rightarrow> (Inl e, w3)
                                          | Inr results' \<Rightarrow> return_results results' w3))
                                  else return_results results w2)))))))"

text \<open>
  The comprehension of the \<open>else\<close> clause of \<open>scrape\<close>:
  \<open>self._parse_product_info(task.result(), url)\<close> for each item of the dict of tasks.
\<close>

fun parse_tasks :: "(ustr \<times> page) list \<Rightarrow> exn + raw_record option list" where
  "parse_tasks [] = Inr []"
| "parse_tasks ((url, body) # tasks) =
     (case parse_product_info body url of
        Inl e \<Rightarrow> Inl e
      | Inr r \<Rightarrow> (case parse_tasks tasks of Inl e \<Rightarrow> Inl e | Inr rs \<Rightarrow> Inr (r # rs)))"

text \<open>
  \<open>BookScraper.scrape\<close>. \<open>base_url\<close> comes from the configuration file, which is not
  part of the sources, and is a parameter. The tasks are kept in a dict under
  \<open>base_url + path\<close>. The function returns \<open>None\<close> when there are no paths and after a
  handler has run.
\<close>

definition scrape ::
  "unicode \<Rightarrow> ustr \<Rightarrow> net \<Rightarrow> ustr \<Rightarrow> world \<Rightarrow>
     (exn + raw_record option list option) \<times> world" where
  "scrape uc base_url net category w =
     (case collect_paths uc net category w of
        (Inl e, w1) \<Rightarrow> (Inl e, w1)
      | (Inr paths, w1) \<Rightarrow>
          (if paths \<noteq> [] then
             (case task_group net paths w1 of
                (Inl errs, w2) \<Rightarrow> (Inr None, emit (except_star errs) w2)
              | (Inr bodies, w2) \<Rightarrow>
                  (case parse_tasks (dict_of (zip (map (\<lambda>path. base_url @ path) paths) bodies)) of
                     Inl e \<Rightarrow> (Inl e, w2)
                   | Inr records \<Rightarrow> (Inr (Some records), w2)))
           else (Inr None, w1)))"

section \<open>Rating\<close>

text \<open>\<open>BookScraper._convert_rating\<close>: the \<open>isinstance\<close> check, then the \<open>match\<close>.\<close>

definition convert_rating :: "cell \<Rightarrow> exn + rat" where
  "convert_rating rating =
     (case rating of
        Str s \<Rightarrow>
          (let r = lower s in
           if r = u ''one'' then Inr 1
           else if r = u ''two'' then Inr 2
           else if r = u ''three'' then Inr 3
           else if r = u ''four'' then Inr 4
           else if r = u ''five'' then Inr 5
           else Inl (ValueError Rating_must_be_parsable))
      | _ \<Rightarrow> Inl TypeError)"

text \<open>
  \<open>any_case w s\<close>: the text \<open>s\<close> spells the lower-case word \<open>w\<close>, each letter in either
  case.
\<close>

definition any_case :: "ustr \<Rightarrow> ustr \<Rightarrow> bool" where
  "any_case w s = list_all2 (\<lambda>a b. b = a \<or> b + 32 = a) w s"

definition lower_word :: "ustr \<Rightarrow> bool" where
  "lower_word w = list_all (\<lambda>a. 97 \<le> a \<and> a \<le> 122) w"

section \<open>Tables\<close>

text \<open>
  A \<open>DataFrame\<close> as \<open>save_data\<close> builds it from the records of \<open>scrape\<close>: the columns in
  order, each with its name and its cells (of object dtype: strings, and \<open>NaN\<close> where a
  record lacks the key).
\<close>

type_synonym frame = "(ustr \<times> cell list) list"

definition has_column :: "frame \<Rightarrow> ustr \<Rightarrow> bool" where
  "has_column df name = (name \<in> set (map fst df))"

text \<open>\<open>df[[...]]\<close>: the named columns in the order asked, \<open>KeyError\<close> if one is not there.\<close>

fun select_columns :: "frame \<Rightarrow> ustr list \<Rightarrow> exn + frame" where
  "select_columns df [] = Inr []"
| "select_columns df (name # names) =
     (case map_of df name of
        None \<Rightarrow> Inl KeyError
      | Some col \<Rightarrow>
          (case select_columns df names of
             Inl e \<Rightarrow> Inl e
           | Inr cols \<Rightarrow> Inr ((name, col) # cols)))"

definition price_columns :: "ustr list" where
  "price_columns = [u ''Price (excl. tax)'', u ''Price (incl. tax)'', u ''Tax'']"

text \<open>
  The pattern \<open>(?i)(Free|Give Away|Gratis|No charge)\<close>. \<open>ci_prefix uc w s\<close>: the text
  \<open>s\<close> starts with a match of the alternative \<open>w\<close>, each character of \<open>w\<close> matching one
  character of \<open>s\<close> under \<open>(?i)\<close>. \<open>match_first\<close> tries the alternatives in the order
  of the pattern and gives the length of the match.
\<close>

definition zero_synonyms :: "ustr list" where
  "zero_synonyms = [u ''Free'', u ''Give Away'', u ''Gratis'', u ''No charge'']"

definition ci_prefix :: "unicode \<Rightarrow> ustr \<Rightarrow> ustr \<Rightarrow> bool" where
  "ci_prefix uc w s =
     (length w \<le> length s \<and> list_all2 (ignore_case uc) w (take (length w) s))"

fun match_first :: "unicode \<Rightarrow> ustr list \<Rightarrow> ustr \<Rightarrow> nat option" where
  "match_first uc [] s = None"
| "match_first uc (w # ws) s =
     (if ci_prefix uc w s then Some (length w) else match_first uc ws s)"

text \<open>
  \<open>re.sub\<close> of that pattern by \<open>"0"\<close>: from left to right, a match is replaced and the
  scan goes on behind it, any other character is kept. A match of length \<open>n\<close> at
  \<open>c # cs\<close> leaves \<open>drop (n - 1) cs\<close> (no alternative is empty).
\<close>

function re_sub_zero :: "unicode \<Rightarrow> ustr list \<Rightarrow> ustr \<Rightarrow> ustr" where
  "re_sub_zero uc alts [] = []"
| "re_sub_zero uc alts (c # cs) =
     (case match_first uc alts (c # cs) of
        Some n \<Rightarrow> 48 # re_sub_zero uc alts (drop (n - 1) cs)
      | None \<Rightarrow> c # re_sub_zero uc alts cs)"
  by pat_completeness auto
termination
  by (relation "measure (\<lambda>(uc, alts, s). length s)") auto

text \<open>The class \<open>\d\<close>, and the class \<open>[\d.]\<close>: a decimal digit or the dot.\<close>

definition is_digit :: "unicode \<Rightarrow> nat \<Rightarrow> bool" where
  "is_digit uc c = (decimal uc c \<noteq> None)"

definition numeric_cp :: "unicode \<Rightarrow> nat \<Rightarrow> bool" where
  "numeric_cp uc c = (is_digit uc c \<or> c = 46)"

text \<open>
  \<open>replace({synonyms: "0", r"[^\d.]": ""}, regex=True)\<close> on one cell: both patterns are
  substituted in a string, in the order of the dict; a cell that is not a string is
  left as it is.
\<close>

definition replace_cell :: "unicode \<Rightarrow> cell \<Rightarrow> cell" where
  "replace_cell uc c =
     (case c of
        Str s \<Rightarrow> Str (filter (numeric_cp uc) (re_sub_zero uc zero_synonyms s))
      | _ \<Rightarrow> c)"

text \<open>
  \<open>float(s)\<close> for a text of decimal digits and dots, which is all the replacement
  leaves: digits, with at most one dot among them, and at least one digit. \<open>None\<close>
  stands for the \<open>ValueError\<close> of \<open>float\<close>. \<open>nat_of_digits\<close> reads a run of digits.
\<close>

fun nat_of_digits :: "unicode \<Rightarrow> nat \<Rightarrow> ustr \<Rightarrow> nat" where
  "nat_of_digits uc acc [] = acc"
| "nat_of_digits uc acc (c # cs) =
     nat_of_digits uc (10 * acc + (case decimal uc c of Some d \<Rightarrow> d | None \<Rightarrow> 0)) cs"

definition float_of_str :: "unicode \<Rightarrow> ustr \<Rightarrow> rat option" where
  "float_of_str uc s =
     (let whole = takeWhile (is_digit uc) s; rest = dropWhile (is_digit uc) s
      in case rest of
           [] \<Rightarrow> (if whole = [] then None else Some (of_nat (nat_of_digits uc 0 whole)))
         | c # decimals \<Rightarrow>
             (if c = 46 \<and> list_all (is_digit uc) decimals \<and> (whole \<noteq> [] \<or> decimals \<noteq> [])
              then Some (of_nat (nat_of_digits uc 0 (whole @ decimals)) / 10 ^ length decimals)
              else None))"

text \<open>\<open>astype(float)\<close>, cell by cell and column by column.\<close>

definition astype_float_cell :: "unicode \<Rightarrow> cell \<Rightarrow> exn + cell" where
  "astype_float_cell uc c =
     (case c of
        Str s \<Rightarrow>
          (case float_of_str uc s of
             None \<Rightarrow> Inl (ValueError Could_not_convert_string_to_float)
           | Some r \<Rightarrow> Inr (Num r))
      | _ \<Rightarrow> Inr c)"

fun astype_float_cells :: "unicode \<Rightarrow> cell list \<Rightarrow> exn + cell list" where
  "astype_float_cells uc [] = Inr []"
| "astype_float_cells uc (c # cs) =
     (case astype_float_cell uc c of
        Inl e \<Rightarrow> Inl e
      | Inr x \<Rightarrow>
          (case astype_float_cells uc cs of Inl e \<Rightarrow> Inl e | Inr xs \<Rightarrow> Inr (x # xs)))"

fun astype_float :: "unicode \<Rightarrow> frame \<Rightarrow> exn + frame" where
  "astype_float uc [] = Inr []"
| "astype_float uc ((name, col) # cols) =
     (case astype_float_cells uc col of
        Inl e \<Rightarrow> Inl e
      | Inr col' \<Rightarrow>
          (case astype_float uc cols of
             Inl e \<Rightarrow> Inl e
           | Inr cols' \<Rightarrow> Inr ((name, col') # cols')))"

text \<open>\<open>isna().any().any()\<close>.\<close>

definition any_isna :: "frame \<Rightarrow> bool" where
  "any_isna df = list_ex (\<lambda>(name, col). list_ex (\<lambda>c. c = NaN) col) df"

text \<open>\<open>BookScraper._parse_prices\<close>, for an argument that is a \<open>DataFrame\<close>.\<close>

definition parse_prices :: "unicode \<Rightarrow> frame \<Rightarrow> exn + frame" where
  "parse_prices uc df =
     (if \<not> list_ex (has_column df) price_columns
      then Inl (ValueError Price_columns_dont_exist)
      else
        (case select_columns df price_columns of
           Inl e \<Rightarrow> Inl e
         | Inr selected \<Rightarrow>
             (let extracted = map (\<lambda>(name, col). (name, map (replace_cell uc) col)) selected
              in if \<not> any_isna extracted then astype_float uc extracted else Inr extracted)))"

text \<open>
  The pattern \<open>.*([$\<pounds>\<euro>]).*\<close> as \<open>str.extract\<close> searches it. At one starting place the
  first \<open>.*\<close> takes every character up to the end of the line and then gives them back
  one by one until the character behind it is one of the three symbols; the last \<open>.*\<close>
  always matches. \<open>backtrack s k\<close> tries the lengths \<open>k\<close>, \<open>k - 1\<close>, ..., 0 for the first
  \<open>.*\<close> and returns the symbol captured.
\<close>

definition is_currency :: "nat \<Rightarrow> bool" where
  "is_currency c = (c = 36 \<or> c = 163 \<or> c = 8364)"

fun backtrack :: "ustr \<Rightarrow> nat \<Rightarrow> nat option" where
  "backtrack s 0 =
     (case s of [] \<Rightarrow> None | c # cs \<Rightarrow> if is_currency c then Some c else None)"
| "backtrack s (Suc k) =
     (if Suc k < length s \<and> is_currency (s ! Suc k) then Some (s ! Suc k) else backtrack s k)"

definition match_here :: "ustr \<Rightarrow> nat option" where
  "match_here s = backtrack s (length (takeWhile (\<lambda>c. c \<noteq> 10) s))"

text \<open>The search tries every starting place from the left.\<close>

fun re_search :: "ustr \<Rightarrow> nat option" where
  "re_search [] = match_here []"
| "re_search (c # cs) =
     (case match_here (c # cs) of Some x \<Rightarrow> Some x | None \<Rightarrow> re_search cs)"

text \<open>\<open>.str.extract(...)[0]\<close> on one cell: the captured symbol, \<open>NaN\<close> without a match.\<close>

definition extract_cell :: "cell \<Rightarrow> cell" where
  "extract_cell c =
     (case c of
        Str s \<Rightarrow> (case re_search s of Some x \<Rightarrow> Str [x] | None \<Rightarrow> NaN)
      | _ \<Rightarrow> NaN)"

text \<open>\<open>BookScraper._parse_currency\<close>, for an argument that is a \<open>DataFrame\<close>.\<close>

definition parse_currency :: "frame \<Rightarrow> exn + cell list" where
  "parse_currency df =
     (if \<not> list_ex (has_column df) [u ''Price (incl. tax)'']
      then Inl (ValueError Product_price_columns_dont_exist)
      else
        (case map_of df (u ''Price (incl. tax)'') of
           None \<Rightarrow> Inl KeyError
         | Some col \<Rightarrow> Inr (map extract_cell col)))"

section \<open>Notions used in the statements\<close>

text \<open>
  The answers of the site to a cohort: one request for each path, the first of them
  being the \<open>n\<close>-th request of the session.
\<close>

fun cohort :: "net \<Rightarrow> nat \<Rightarrow> ustr list \<Rightarrow> (exn + page) list" where
  "cohort net n [] = []"
| "cohort net n (path # paths) = net n path # cohort net (Suc n) paths"

text \<open>Each member of a list once, at the place where it occurs first.\<close>

definition first_occurrences :: "'a list \<Rightarrow> 'a list" where
  "first_occurrences xs = rev (remdups (rev xs))"

text \<open>The first and the last currency symbol of a text, and the lines of a text.\<close>

definition first_currency :: "ustr \<Rightarrow> nat option" where
  "first_currency s = find is_currency s"

definition last_currency :: "ustr \<Rightarrow> nat option" where
  "last_currency s = find is_currency (rev s)"

fun split_lines :: "ustr \<Rightarrow> ustr list" where
  "split_lines [] = [[]]"
| "split_lines (c # cs) =
     (if c = 10 then [] # split_lines cs
      else (case split_lines cs of [] \<Rightarrow> [[c]] | l # ls \<Rightarrow> (c # l) # ls))"

text \<open>
  The last currency symbol of the first line that has one: what the amended statement
  of the currency step says.
\<close>

definition currency_of :: "ustr \<Rightarrow> nat option" where
  "currency_of s =
     (case find (list_ex is_currency) (split_lines s) of
        None \<Rightarrow> None
      | Some l \<Rightarrow> last_currency l)"

text \<open>
  The number that the price step makes of a cell, if there is one: the decimal read
  from the cell after the replacement; a cell that is not a string stays as it is.
\<close>

definition as_number :: "unicode \<Rightarrow> cell \<Rightarrow> cell option" where
  "as_number uc c =
     (case replace_cell uc c of
        Str s \<Rightarrow> map_option Num (float_of_str uc s)
      | x \<Rightarrow> Some x)"

section \<open>An example site and example tables\<close>

text \<open>
  The examples are text of ASCII characters and currency symbols. \<open>ascii\<close> holds
  the Unicode functions as they are on such text: \<open>lower\<close>, the digits 0 to 9, and the
  letters A to Z matching without regard to case.
\<close>

definition ascii :: unicode where
  "ascii =
     \<lparr>str_lower = lower,
      decimal = (\<lambda>c. if 48 \<le> c \<and> c \<le> 57 then Some (c - 48) else None),
      ignore_case = (\<lambda>p c. lower_cp c = lower_cp p)\<rparr>"

definition blank :: page where
  "blank = \<lparr>category_anchors = [], product_anchors = [], pager_current = None,
            product_name = None, star_rating = None, table_rows = None\<rparr>"

text \<open>A site given by the list of its pages; any other path is answered with 404.\<close>

definition site :: "(ustr \<times> (exn + page)) list \<Rightarrow> net" where
  "site pages n path =
     (case map_of pages path of Some answer \<Rightarrow> answer | None \<Rightarrow> Inl (ClientResponseError 404))"

definition index_page :: page where
  "index_page = blank\<lparr>category_anchors :=
     [(u ''Travel'', u ''../books/travel_2/index.html''),
      (u ''Default Category'', u ''../books/default_15/index.html''),
      (u ''Music'', u ''../books/music_14/index.html''),
      (u ''Art'', u ''../books/art_25/index.html''),
      (u ''Broken'', u ''../books/x/'')]\<rparr>"

text \<open>
  The category Travel has three listing pages; the third lists the first product of the
  first once more. The second product has an empty title.
\<close>

definition travel_1 :: page where
  "travel_1 = blank\<lparr>product_anchors :=
       [Some (u ''../../../a_1/index.html''), Some (u ''../../../b_2/index.html'')],
     pager_current := Some (u ''Page 1 of 3'')\<rparr>"

definition travel_2 :: page where
  "travel_2 = blank\<lparr>product_anchors := [Some (u ''../../../c_3/index.html'')],
     pager_current := Some (u ''Page 2 of 3'')\<rparr>"

definition travel_3 :: page where
  "travel_3 = blank\<lparr>product_anchors := [Some (u ''../../../a_1/index.html'')],
     pager_current := Some (u ''Page 3 of 3'')\<rparr>"

definition book_a :: page where
  "book_a = blank\<lparr>product_name := Some (u ''A''),
     star_rating := Some [u ''star-rating'', u ''Three'']\<rparr>"

definition book_b :: page where
  "book_b = blank\<lparr>product_name := Some [],
     star_rating := Some [u ''star-rating'', u ''Two'']\<rparr>"

definition book_c :: page where
  "book_c = blank\<lparr>product_name := Some (u ''C''),
     star_rating := Some [u ''star-rating'', u ''One''],
     table_rows := Some [(Some (u ''UPC''), Some (u ''c3''))]\<rparr>"

text \<open>
  The category Default Category has twelve listing pages of one product each. The
  category Music has one listing page, whose product page has no title element.
\<close>

definition default_page :: "nat \<Rightarrow> page" where
  "default_page n = blank\<lparr>product_anchors := [Some (u ''../../../d_'' @ digits n @ u ''/index.html'')],
     pager_current := Some (u ''Page '' @ digits n @ u '' of 12'')\<rparr>"

definition music_1 :: page where
  "music_1 = blank\<lparr>product_anchors := [Some (u ''../../../m_5/index.html'')]\<rparr>"

text \<open>
  The category Art has two listing pages; the product anchor of the second has no
  \<open>href\<close>.
\<close>

definition art_1 :: page where
  "art_1 = blank\<lparr>product_anchors := [Some (u ''../../../e_6/index.html'')],
     pager_current := Some (u ''Page 1 of 2'')\<rparr>"

definition art_2 :: page where
  "art_2 = blank\<lparr>product_anchors := [None], pager_current := Some (u ''Page 2 of 2'')\<rparr>"

definition book_m :: page where
  "book_m = blank\<lparr>star_rating := Some [u ''star-rating'', u ''Four'']\<rparr>"

definition example_pages :: "(ustr \<times> (exn + page)) list" where
  "example_pages =
     [(u ''category/books_1/index.html'', Inr index_page),
      (u ''category/books/travel_2/index.html'', Inr travel_1),
      (u ''category/books/travel_2/page-2.html'', Inr travel_2),
      (u ''category/books/travel_2/page-3.html'', Inr travel_3),
      (u ''a_1/index.html'', Inr book_a),
      (u ''b_2/index.html'', Inr book_b),
      (u ''c_3/index.html'', Inr book_c),
      (u ''category/books/music_14/index.html'', Inr music_1),
      (u ''m_5/index.html'', Inr book_m),
      (u ''category/books/art_25/index.html'', Inr art_1),
      (u ''category/books/art_25/page-2.html'', Inr art_2),
      (u ''category/books/default_15/index.html'', Inr (default_page 1))] @
     map (\<lambda>n. (page_path (u ''books/default_15'') n, Inr (default_page n))) [2 ..< 13] @
     map (\<lambda>n. (u ''d_'' @ digits n @ u ''/index.html'',
                Inr (blank\<lparr>product_name := Some (u ''D''),
                            star_rating := Some [u ''star-rating'', u ''Five'']\<rparr>))) [1 ..< 13]"

text \<open>The same site when the request for the third page of Travel times out.\<close>

definition timeout_pages :: "(ustr \<times> (exn + page)) list" where
  "timeout_pages =
     (u ''category/books/travel_2/page-3.html'', Inl ConnectionTimeoutError) # example_pages"




definition world0 :: world where
  "world0 = \<lparr>requests = [], printed = []\<rparr>"

text \<open>The paths that the crawl of Travel gathers, and the world after that crawl.\<close>

definition travel_paths :: "ustr list" where
  "travel_paths =
     [u ''a_1/index.html'', u ''b_2/index.html'', u ''c_3/index.html'', u ''a_1/index.html'']"

definition travel_world :: world where
  "travel_world =
     \<lparr>requests = [u ''category/books_1/index.html'', u ''category/books/travel_2/index.html'',
                  u ''category/books/travel_2/page-2.html'',
                  u ''category/books/travel_2/page-3.html''],
      printed = []\<rparr>"

definition example_url :: ustr where
  "example_url = u ''https://books.toscrape.com/catalogue/''"

text \<open>
  Tables: one whose second record has no attribute table, one that is complete, and a
  column of prices with two currency symbols in its first cell.
\<close>

definition prices_with_gap :: frame where
  "prices_with_gap =
     [(u ''Product name'', [Str (u ''A''), Str (u ''B'')]),
      (u ''Price (excl. tax)'', [Str (163 # u ''51.77''), NaN]),
      (u ''Price (incl. tax)'', [Str (163 # u ''51.77''), NaN]),
      (u ''Tax'', [Str (163 # u ''0.00''), NaN])]"

definition prices_complete :: frame where
  "prices_complete =
     [(u ''Price (excl. tax)'', [Str (163 # u ''51.77''), Str (u ''Free'')]),
      (u ''Price (incl. tax)'', [Str (163 # u ''51.77''), Str (u ''free'')]),
      (u ''Tax'', [Str (163 # u ''0.00''), Str (u ''No Charge'')])]"

definition prices_unparsable :: frame where
  "prices_unparsable =
     [(u ''Price (excl. tax)'', [Str (u ''n/a'')]),
      (u ''Price (incl. tax)'', [Str (163 # u ''51.77'')]),
      (u ''Tax'', [Str (163 # u ''0.00'')])]"

text \<open>
  A table with text outside ASCII: the price "5Gratis" written with the dotless i (305)
  for its i, and a price written with the digit 1 and the Arabic-Indic digit three (1635).
  \<open>wide\<close> holds the Unicode functions as they are on such text: the Arabic-Indic
  digits (1632 to 1641) are decimal digits, and under \<open>(?i)\<close> the letter i also matches
  the dotless i and the capital I with a dot (304), s the long s (383), k the Kelvin
  sign (8490).
\<close>

definition wide :: unicode where
  "wide = ascii
     \<lparr>decimal := (\<lambda>c. if 48 \<le> c \<and> c \<le> 57 then Some (c - 48)
                     else if 1632 \<le> c \<and> c \<le> 1641 then Some (c - 1632) else None),
      ignore_case := (\<lambda>p c. lower_cp c = lower_cp p \<or>
                        (lower_cp p = 105 \<and> (c = 304 \<or> c = 305)) \<or>
                        (lower_cp p = 115 \<and> c = 383) \<or> (lower_cp p = 107 \<and> c = 8490))\<rparr>"

definition prices_wide :: frame where
  "prices_wide =
     [(u ''Price (excl. tax)'', [Str (u ''5Grat'' @ 305 # u ''s'')]),
      (u ''Price (incl. tax)'', [Str [49, 1635]]),
      (u ''Tax'', [Str (163 # u ''0.00'')])]"

definition two_symbols :: frame where
  "two_symbols =
     [(u ''Price (incl. tax)'', [Str (36 # u ''5 or '' @ 163 # u ''4''), Str (u ''51.77''), NaN])]"

section \<open>Properties of the rating conversion\<close>

lemma lower_cp_eq_iff:
  assumes "97 \<le> a" "a \<le> 122"
  shows "lower_cp b = a \<longleftrightarrow> b = a \<or> b + 32 = a"
  using assms by (auto simp: lower_cp_def)

lemma lower_eq_any_case:
  "lower_word w \<Longrightarrow> lower s = w \<longleftrightarrow> any_case w s"
proof (induction w arbitrary: s)
  case Nil
  then show ?case by (simp add: lower_def any_case_def)
next
  case (Cons a w)
  then have a: "97 \<le> a" "a \<le> 122" and w: "lower_word w"
    by (simp_all add: lower_word_def)
  show ?case
  proof (cases s)
    case Nil
    then show ?thesis by (simp add: lower_def any_case_def)
  next
    case (Cons b t)
    have "lower t = w \<longleftrightarrow> any_case w t" using Cons.IH [OF w] .
    then show ?thesis
      using lower_cp_eq_iff [OF a, of b] Cons
      by (simp add: lower_def any_case_def)
  qed
qed

lemma rating_words_lower:
  "lower_word (u ''one'')" "lower_word (u ''two'')" "lower_word (u ''three'')"
  "lower_word (u ''four'')" "lower_word (u ''five'')"
  by (simp_all add: lower_word_def u_def)

text \<open>
  Claim C7. For each of the rating words one, two, three, four, five, written in any
  letter case, the rating conversion returns 1.0, 2.0, 3.0, 4.0, 5.0 respectively; for
  every other string it fails with the \<open>ValueError\<close> "Rating must be parsable".
\<close>

theorem convert_rating_words:
  "(any_case (u ''one'') s \<longrightarrow> convert_rating (Str s) = Inr 1) \<and>
   (any_case (u ''two'') s \<longrightarrow> convert_rating (Str s) = Inr 2) \<and>
   (any_case (u ''three'') s \<longrightarrow> convert_rating (Str s) = Inr 3) \<and>
   (any_case (u ''four'') s \<longrightarrow> convert_rating (Str s) = Inr 4) \<and>
   (any_case (u ''five'') s \<longrightarrow> convert_rating (Str s) = Inr 5) \<and>
   (\<not> any_case (u ''one'') s \<and> \<not> any_case (u ''two'') s \<and> \<not> any_case (u ''three'') s \<and>
    \<not> any_case (u ''four'') s \<and> \<not> any_case (u ''five'') s \<longrightarrow>
      convert_rating (Str s) = Inl (ValueError Rating_must_be_parsable))"
proof -
  have distinct: "u ''one'' \<noteq> u ''two''" "u ''one'' \<noteq> u ''three''" "u ''one'' \<noteq> u ''four''"
    "u ''one'' \<noteq> u ''five''" "u ''two'' \<noteq> u ''three''" "u ''two'' \<noteq> u ''four''"
    "u ''two'' \<noteq> u ''five''" "u ''three'' \<noteq> u ''four''" "u ''three'' \<noteq> u ''five''"
    "u ''four'' \<noteq> u ''five''"
    by (simp_all add: u_def)
  have eqs: "any_case (u ''one'') s \<longleftrightarrow> lower s = u ''one''"
    "any_case (u ''two'') s \<longleftrightarrow> lower s = u ''two''"
    "any_case (u ''three'') s \<longleftrightarrow> lower s = u ''three''"
    "any_case (u ''four'') s \<longleftrightarrow> lower s = u ''four''"
    "any_case (u ''five'') s \<longleftrightarrow> lower s = u ''five''"
    using rating_words_lower by (simp_all add: lower_eq_any_case)
  show ?thesis
    unfolding eqs using distinct by (auto simp: convert_rating_def Let_def)
qed

theorem convert_rating_words_witness:
  "any_case (u ''three'') (u ''ThReE'') \<and> convert_rating (Str (u ''ThReE'')) = Inr 3 \<and>
   \<not> any_case (u ''one'') (u ''six'') \<and>
   convert_rating (Str (u ''six'')) = Inl (ValueError Rating_must_be_parsable)"
proof -
  have a: "any_case (u ''three'') (u ''ThReE'')"
    by (simp add: any_case_def u_def)
  have b: "\<not> any_case (u ''one'') (u ''six'')" "\<not> any_case (u ''two'') (u ''six'')"
    "\<not> any_case (u ''three'') (u ''six'')" "\<not> any_case (u ''four'') (u ''six'')"
    "\<not> any_case (u ''five'') (u ''six'')"
    by (simp_all add: any_case_def u_def)
  show ?thesis
    using a b convert_rating_words [of "u ''ThReE''"] convert_rating_words [of "u ''six''"]
    by blast
qed

section \<open>Properties of the crawl\<close>

lemma create_tasks_eq:
  "create_tasks net paths w =
     (cohort net (length (requests w)) paths, w\<lparr>requests := requests w @ paths\<rparr>)"
  by (induction paths arbitrary: w) (simp_all add: request_to_page_def)

lemma task_group_eq:
  "task_group net paths w =
     (let rs = cohort net (length (requests w)) paths
      in if failures rs = [] then Inr (task_results rs) else Inl (failures rs),
      w\<lparr>requests := requests w @ paths\<rparr>)"
  by (simp add: task_group_def create_tasks_eq Let_def)

lemma failures_nonempty_iff: "failures rs \<noteq> [] \<longleftrightarrow> (\<exists>e. Inl e \<in> set rs)"
  by (induction rs rule: failures.induct) auto

lemma failures_map_Inr: "failures (map Inr xs) = []"
  by (induction xs) simp_all

lemma task_results_map_Inr: "task_results (map Inr xs) = xs"
  by (induction xs) simp_all

lemma extend_results_all:
  "map parse_product_paths tasks = map Inr pss \<Longrightarrow>
   extend_results results tasks = Inr (results @ concat pss)"
proof (induction tasks arbitrary: results pss)
  case Nil
  then show ?case by simp
next
  case (Cons b tasks)
  then obtain ps pss' where pss: "pss = ps # pss'" by (cases pss) auto
  with Cons.prems have b: "parse_product_paths b = Inr ps"
    and rest: "map parse_product_paths tasks = map Inr pss'" by simp_all
  show ?case using Cons.IH [OF rest, of "results @ ps"] b pss by simp
qed

text \<open>
  Claim C1. The crawl has resolved the category, fetched its first listing page and got
  from it the paths \<open>first_paths\<close> and a page count that is not empty; \<open>members\<close> are the
  answers to the cohort of requests for the remaining pages, in the order of the page
  numbers. If one member has failed, the crawl returns \<open>first_paths\<close> alone, whatever
  the other members have answered. If every member has succeeded, the crawl returns
  \<open>first_paths\<close> followed by the paths of each page, in the order of the page numbers.
\<close>

theorem collect_paths_cohort:
  assumes index: "net (length (requests w)) (u ''category/books_1/index.html'') = Inr index"
    and category: "map_of (parse_category_paths uc index) (str_lower uc category) = Some path_to_category"
      "path_to_category \<noteq> []"
    and first: "net (Suc (length (requests w)))
                  (u ''category/'' @ path_to_category @ u ''/index.html'') = Inr markup"
    and paths: "parse_product_paths markup = Inr first_paths"
    and count: "get_page_count uc markup = Inr page_count" "page_count \<noteq> []"
    and members: "members = cohort net (Suc (Suc (length (requests w))))
                    (map (page_path path_to_category) page_count)"
  shows "((\<exists>e. Inl e \<in> set members) \<longrightarrow>
            fst (collect_paths uc net category w) = Inr first_paths) \<and>
         (members = map Inr bodies \<and> map parse_product_paths bodies = map Inr pss \<longrightarrow>
            fst (collect_paths uc net category w) = Inr (first_paths @ concat pss))"
proof (intro conjI impI)
  assume "\<exists>e. Inl e \<in> set members"
  then have "failures members \<noteq> []" by (simp add: failures_nonempty_iff)
  then show "fst (collect_paths uc net category w) = Inr first_paths"
    using index category first paths count members
    by (simp add: collect_paths_def request_to_page_def task_group_eq return_results_def)
next
  assume a: "members = map Inr bodies \<and> map parse_product_paths bodies = map Inr pss"
  then have "failures members = []" "task_results members = bodies"
    by (simp_all add: failures_map_Inr task_results_map_Inr)
  moreover have "extend_results first_paths bodies = Inr (first_paths @ concat pss)"
    using a by (simp add: extend_results_all)
  ultimately show "fst (collect_paths uc net category w) = Inr (first_paths @ concat pss)"
    using index category first paths count members
    by (simp add: collect_paths_def request_to_page_def task_group_eq return_results_def)
qed


lemma example_site_index:
  "site example_pages n (u ''category/books_1/index.html'') = Inr index_page"
  "site timeout_pages n (u ''category/books_1/index.html'') = Inr index_page"
  by (simp_all add: site_def example_pages_def timeout_pages_def u_def)

lemma index_page_categories:
  "parse_category_paths ascii index_page =
     [(u ''travel'', u ''books/travel_2''), (u ''default category'', u ''books/default_15''),
      (u ''music'', u ''books/music_14''), (u ''art'', u ''books/art_25''), (u ''broken'', [])]"
  by code_simp

lemma travel_lookup:
  "map_of (parse_category_paths ascii index_page) (str_lower ascii (u ''Travel'')) = Some (u ''books/travel_2'')"
  unfolding index_page_categories by code_simp

theorem collect_paths_cohort_witness:
  "fst (collect_paths ascii (site timeout_pages) (u ''Travel'') world0) =
     Inr [u ''a_1/index.html'', u ''b_2/index.html''] \<and>
   fst (collect_paths ascii (site example_pages) (u ''Travel'') world0) =
     Inr [u ''a_1/index.html'', u ''b_2/index.html'', u ''c_3/index.html'', u ''a_1/index.html'']"
proof -
  have w: "length (requests world0) = 0" by (simp add: world0_def)
  have first: "site timeout_pages (Suc 0) (u ''category/'' @ u ''books/travel_2'' @ u ''/index.html'') = Inr travel_1"
    "site example_pages (Suc 0) (u ''category/'' @ u ''books/travel_2'' @ u ''/index.html'') = Inr travel_1"
    by code_simp+
  have paths: "parse_product_paths travel_1 = Inr [u ''a_1/index.html'', u ''b_2/index.html'']"
    by code_simp
  have count: "get_page_count ascii travel_1 = Inr [2, 3]" "[2, 3] \<noteq> ([] :: nat list)"
    by code_simp+
  have ne: "u ''books/travel_2'' \<noteq> []" by (simp add: u_def)
  have m1: "cohort (site timeout_pages) (Suc (Suc 0)) (map (page_path (u ''books/travel_2'')) [2, 3])
     = [Inr travel_2, Inl ConnectionTimeoutError]"
    by code_simp
  have m2: "cohort (site example_pages) (Suc (Suc 0)) (map (page_path (u ''books/travel_2'')) [2, 3])
     = map Inr [travel_2, travel_3]"
    by code_simp
  have p2: "map parse_product_paths [travel_2, travel_3] = map Inr [[u ''c_3/index.html''], [u ''a_1/index.html'']]"
    by code_simp
  have a: "fst (collect_paths ascii (site timeout_pages) (u ''Travel'') world0) =
     Inr [u ''a_1/index.html'', u ''b_2/index.html'']"
    using collect_paths_cohort [of "site timeout_pages" world0 index_page ascii "u ''Travel''"
        "u ''books/travel_2''" travel_1 "[u ''a_1/index.html'', u ''b_2/index.html'']" "[2, 3]"
        "[Inr travel_2, Inl ConnectionTimeoutError]"]
      example_site_index travel_lookup first paths count ne m1
    by (simp add: w)
  have b: "fst (collect_paths ascii (site example_pages) (u ''Travel'') world0) =
     Inr ([u ''a_1/index.html'', u ''b_2/index.html''] @ concat [[u ''c_3/index.html''], [u ''a_1/index.html'']])"
    using collect_paths_cohort [of "site example_pages" world0 index_page ascii "u ''Travel''"
        "u ''books/travel_2''" travel_1 "[u ''a_1/index.html'', u ''b_2/index.html'']" "[2, 3]"
        "map Inr [travel_2, travel_3]" "[travel_2, travel_3]" "[[u ''c_3/index.html''], [u ''a_1/index.html'']]"]
      example_site_index travel_lookup first paths count ne m2 p2
    by (simp add: w)
  show ?thesis using a b by simp
qed

section \<open>Properties of the category lookup\<close>

lemma dict_set_keys:
  "map fst (dict_set k v d) = (if k \<in> set (map fst d) then map fst d else map fst d @ [k])"
proof (induction d)
  case Nil
  then show ?case by simp
next
  case (Cons kv d)
  obtain k' v' where kv: "kv = (k', v')" by (cases kv)
  show ?case
  proof (cases "k' = k")
    case True
    then show ?thesis by (simp add: kv)
  next
    case False
    then show ?thesis using Cons by (simp add: kv)
  qed
qed

lemma dict_set_map_of: "map_of (dict_set k v d) = (map_of d)(k \<mapsto> v)"
  by (induction d) (auto simp: fun_eq_iff)

lemma dict_update_snoc:
  "dict_update d (kvs @ [(k, v)]) = dict_set k v (dict_update d kvs)"
  by (simp add: dict_update_def)

lemma dict_of_snoc: "dict_of (kvs @ [(k, v)]) = dict_set k v (dict_of kvs)"
  by (simp add: dict_of_def dict_update_snoc)

lemma dict_of_Nil: "dict_of [] = []"
  by (simp add: dict_of_def dict_update_def)

lemma dict_of_map_of: "map_of (dict_of kvs) = map_of (rev kvs)"
proof (induction kvs rule: rev_induct)
  case Nil
  then show ?case by (simp add: dict_of_Nil)
next
  case (snoc kv kvs)
  obtain k v where kv: "kv = (k, v)" by (cases kv)
  show ?case using snoc by (simp add: kv dict_of_snoc dict_set_map_of)
qed

lemma first_occurrences_snoc:
  "first_occurrences (xs @ [x]) =
     (if x \<in> set xs then first_occurrences xs else first_occurrences xs @ [x])"
  by (simp add: first_occurrences_def)

lemma set_first_occurrences: "set (first_occurrences xs) = set xs"
  by (simp add: first_occurrences_def)

lemma dict_of_keys: "map fst (dict_of kvs) = first_occurrences (map fst kvs)"
proof (induction kvs rule: rev_induct)
  case Nil
  then show ?case by (simp add: dict_of_Nil first_occurrences_def)
next
  case (snoc kv kvs)
  obtain k v where kv: "kv = (k, v)" by (cases kv)
  have "set (map fst (dict_of kvs)) = set (map fst kvs)"
    using snoc by (simp add: set_first_occurrences)
  then show ?case
    using snoc by (simp add: kv dict_of_snoc dict_set_keys first_occurrences_snoc)
qed

lemma dict_of_distinct: "distinct (map fst (dict_of kvs))"
  by (simp add: dict_of_keys first_occurrences_def)


lemma collect_paths_not_found:
  assumes "net (length (requests w)) (u ''category/books_1/index.html'') = Inr index"
    and "map_of (parse_category_paths uc index) (str_lower uc name) = None \<or>
         map_of (parse_category_paths uc index) (str_lower uc name) = Some []"
  shows "collect_paths uc net name w =
     (Inl (ValueError Not_found_the_category),
      w\<lparr>requests := requests w @ [u ''category/books_1/index.html'']\<rparr>)"
  using assms by (auto simp: collect_paths_def request_to_page_def)





text \<open>
  Claim C10. An anchor whose \<open>href\<close> has at most 14 characters (the 3 and the 11 that the
  slice strips) puts the empty path into the category map. A name whose key is in the
  map with the empty path makes the crawl fail after the request for the index page with
  the \<open>ValueError\<close> "Not found the category", exactly as a name whose key is not in the
  map.
\<close>

theorem empty_category_path_not_found:
  "(category_anchors index = anchors @ [(text, href)] \<and> length href \<le> 14 \<longrightarrow>
      map_of (parse_category_paths uc index) (str_lower uc text) = Some []) \<and>
   (net (length (requests w)) (u ''category/books_1/index.html'') = Inr index \<and>
    map_of (parse_category_paths uc index) (str_lower uc name) = Some [] \<longrightarrow>
      collect_paths uc net name w =
        (Inl (ValueError Not_found_the_category),
         w\<lparr>requests := requests w @ [u ''category/books_1/index.html'']\<rparr>)) \<and>
   (net (length (requests w)) (u ''category/books_1/index.html'') = Inr index \<and>
    map_of (parse_category_paths uc index) (str_lower uc name) = None \<longrightarrow>
      collect_paths uc net name w =
        (Inl (ValueError Not_found_the_category),
         w\<lparr>requests := requests w @ [u ''category/books_1/index.html'']\<rparr>))"
proof (intro conjI impI)
  assume "category_anchors index = anchors @ [(text, href)] \<and> length href \<le> 14"
  then have "category_anchors index = anchors @ [(text, href)]" and "length href - 11 \<le> 3"
    by auto
  then show "map_of (parse_category_paths uc index) (str_lower uc text) = Some []"
    by (simp add: parse_category_paths_def dict_of_map_of)
qed (simp_all add: collect_paths_not_found)

theorem empty_category_path_not_found_witness:
  "map_of (parse_category_paths ascii index_page) (str_lower ascii (u ''Broken'')) = Some [] \<and>
   collect_paths ascii (site example_pages) (u ''Broken'') world0 =
     (Inl (ValueError Not_found_the_category),
      world0\<lparr>requests := requests world0 @ [u ''category/books_1/index.html'']\<rparr>) \<and>
   collect_paths ascii (site example_pages) (u ''Poetry'') world0 =
     (Inl (ValueError Not_found_the_category),
      world0\<lparr>requests := requests world0 @ [u ''category/books_1/index.html'']\<rparr>)"
proof -
  have a: "category_anchors index_page =
      [(u ''Travel'', u ''../books/travel_2/index.html''),
       (u ''Default Category'', u ''../books/default_15/index.html''),
       (u ''Music'', u ''../books/music_14/index.html''),
       (u ''Art'', u ''../books/art_25/index.html'')] @ [(u ''Broken'', u ''../books/x/'')]"
    by (simp add: index_page_def blank_def)
  have l: "length (u ''../books/x/'') \<le> 14" by (simp add: u_def)
  have i: "site example_pages (length (requests world0)) (u ''category/books_1/index.html'') = Inr index_page"
    by (rule example_site_index)
  have n: "map_of (parse_category_paths ascii index_page) (str_lower ascii (u ''Poetry'')) = None"
    by code_simp
  have b: "map_of (parse_category_paths ascii index_page) (str_lower ascii (u ''Broken'')) = Some []"
    using empty_category_path_not_found [of index_page _ "u ''Broken''" "u ''../books/x/''" ascii] a l
    by blast
  show ?thesis
    using b i n
      empty_category_path_not_found [of index_page _ "u ''Broken''" "u ''../books/x/''" ascii
        "site example_pages" world0 "u ''Broken''"]
      empty_category_path_not_found [of index_page _ "u ''Broken''" "u ''../books/x/''" ascii
        "site example_pages" world0 "u ''Poetry''"]
    by blast
qed

section \<open>Properties of the detail stage\<close>

lemma cohort_length: "length (cohort net n paths) = length paths"
  by (induction paths arbitrary: n) simp_all

lemma parse_tasks_None:
  "parse_tasks tasks = Inr records \<Longrightarrow> (url, b) \<in> set tasks \<Longrightarrow>
   product_name b = Some [] \<Longrightarrow> None \<in> set records"
proof (induction tasks arbitrary: records)
  case Nil
  then show ?case by simp
next
  case (Cons t tasks)
  obtain url' b' where t: "t = (url', b')" by (cases t)
  from Cons.prems(1) obtain r rs where r: "parse_product_info b' url' = Inr r"
    and rs: "parse_tasks tasks = Inr rs" and records: "records = r # rs"
    by (auto simp: t split: sum.splits)
  show ?case
  proof (cases "(url, b) = (url', b')")
    case True
    then have "r = None" using r Cons.prems(3) by (simp add: parse_product_info_def)
    then show ?thesis by (simp add: records)
  next
    case False
    then have "(url, b) \<in> set tasks" using Cons.prems(2) t by auto
    then show ?thesis using Cons.IH [OF rs _ Cons.prems(3)] records by simp
  qed
qed

lemma parse_tasks_total:
  "(\<forall>(url, b) \<in> set tasks. \<forall>e. parse_product_info b url \<noteq> Inl e) \<Longrightarrow>
   \<exists>records. parse_tasks tasks = Inr records"
proof (induction tasks)
  case Nil
  then show ?case by simp
next
  case (Cons t tasks)
  obtain url b where t: "t = (url, b)" by (cases t)
  from Cons.prems obtain r where "parse_product_info b url = Inr r"
    by (cases "parse_product_info b url") (auto simp: t)
  moreover from Cons obtain rs where "parse_tasks tasks = Inr rs" by auto
  ultimately show ?case by (simp add: t)
qed

lemma parse_tasks_all2:
  "parse_tasks tasks = Inr records \<Longrightarrow>
   list_all2 (\<lambda>(url, b) r. parse_product_info b url = Inr r) tasks records"
proof (induction tasks arbitrary: records)
  case Nil
  then show ?case by simp
next
  case (Cons t tasks)
  obtain url b where t: "t = (url, b)" by (cases t)
  from Cons.prems obtain r rs where "parse_product_info b url = Inr r"
    and "parse_tasks tasks = Inr rs" and "records = r # rs"
    by (auto simp: t split: sum.splits)
  then show ?case using Cons.IH [of rs] by (simp add: t)
qed

lemma parse_product_info_raises_any_url:
  "parse_product_info b url = Inl e \<Longrightarrow> parse_product_info b url' = Inl e"
  by (auto simp: parse_product_info_def split: option.splits if_splits sum.splits)

lemma map_of_rev_last:
  "map_of (rev kvs) k = Some v \<Longrightarrow>
   \<exists>j<length kvs. kvs ! j = (k, v) \<and> k \<notin> fst ` set (drop (Suc j) kvs)"
proof (induction kvs rule: rev_induct)
  case Nil
  then show ?case by simp
next
  case (snoc kv kvs)
  obtain k' v' where kv: "kv = (k', v')" by (cases kv)
  show ?case
  proof (cases "k = k'")
    case True
    with snoc.prems have "v = v'" by (simp add: kv)
    with True show ?thesis by (intro exI [of _ "length kvs"]) (simp add: kv)
  next
    case False
    with snoc.prems have "map_of (rev kvs) k = Some v" by (simp add: kv)
    from snoc.IH [OF this] obtain j where j: "j < length kvs" "kvs ! j = (k, v)"
      "k \<notin> fst ` set (drop (Suc j) kvs)" by blast
    with False show ?thesis
      by (intro exI [of _ j]) (simp add: kv nth_append)
  qed
qed

lemma map_of_rev_no_later:
  assumes "j < length kvs" "kvs ! j = (k, v)" "k \<notin> fst ` set (drop (Suc j) kvs)"
  shows "map_of (rev kvs) k = Some v"
proof -
  have "kvs = take j kvs @ (k, v) # drop (Suc j) kvs"
    using assms(1,2) by (metis id_take_nth_drop)
  then have "rev kvs = rev (drop (Suc j) kvs) @ (k, v) # rev (take j kvs)"
    by (metis rev.simps(2) rev_append append.assoc append_Cons append_Nil)
  moreover have "map_of (rev (drop (Suc j) kvs)) k = None"
    using assms(3) by (simp add: map_of_eq_None_iff)
  ultimately show ?thesis by (simp add: map_add_def)
qed

lemma scrape_success:
  assumes "collect_paths uc net category w = (Inr paths, w1)" "paths \<noteq> []"
    and "cohort net (length (requests w1)) paths = map Inr bodies"
  shows "scrape uc base_url net category w =
      (case parse_tasks (dict_of (zip (map (\<lambda>path. base_url @ path) paths) bodies)) of
         Inl e \<Rightarrow> (Inl e, w1\<lparr>requests := requests w1 @ paths\<rparr>)
       | Inr records \<Rightarrow> (Inr (Some records), w1\<lparr>requests := requests w1 @ paths\<rparr>))"
  using assms
  by (simp add: scrape_def task_group_eq failures_map_Inr task_results_map_Inr)


lemma first_occurrences_map_inj:
  "inj f \<Longrightarrow> first_occurrences (map f xs) = map f (first_occurrences xs)"
proof (induction xs rule: rev_induct)
  case Nil
  then show ?case by (simp add: first_occurrences_def)
next
  case (snoc x xs)
  then have "f x \<in> f ` set xs \<longleftrightarrow> x \<in> set xs" by (auto dest: injD)
  then show ?case using snoc by (simp add: first_occurrences_snoc)
qed

lemma dict_of_member:
  "(k, v) \<in> set (dict_of kvs) \<longleftrightarrow> map_of (rev kvs) k = Some v"
  using dict_of_distinct [of kvs] dict_of_map_of [of kvs]
  by (metis map_of_eq_Some_iff)

lemma zip_drop_keys:
  "length xs = length ys \<Longrightarrow> fst ` set (drop n (zip xs ys)) = set (drop n xs)"
  by (metis drop_zip length_drop map_fst_zip set_map)

lemma task_of_path:
  assumes len: "length bodies = length paths"
    and mem: "(url, b) \<in> set (dict_of (zip (map (\<lambda>path. base_url @ path) paths) bodies))"
  shows "\<exists>j<length paths. url = base_url @ paths ! j \<and> b = bodies ! j \<and>
           paths ! j \<notin> set (drop (Suc j) paths)"
proof -
  let ?urls = "map (\<lambda>path. base_url @ path) paths"
  let ?kvs = "zip ?urls bodies"
  from mem have "map_of (rev ?kvs) url = Some b" by (simp add: dict_of_member)
  from map_of_rev_last [OF this] obtain j where j: "j < length ?kvs" "?kvs ! j = (url, b)"
    "url \<notin> fst ` set (drop (Suc j) ?kvs)" by blast
  from j(1) len have jl: "j < length paths" by simp
  with j(2) len have eq: "url = base_url @ paths ! j" "b = bodies ! j" by simp_all
  have "fst ` set (drop (Suc j) ?kvs) = set (drop (Suc j) ?urls)"
    using len by (simp add: zip_drop_keys)
  with j(3) have "url \<notin> set (drop (Suc j) ?urls)" by simp
  then have "paths ! j \<notin> set (drop (Suc j) paths)"
    by (auto simp: eq drop_map)
  with jl eq show ?thesis by blast
qed

lemma path_has_task:
  assumes len: "length bodies = length paths"
    and j: "j < length paths" "paths ! j \<notin> set (drop (Suc j) paths)"
  shows "(base_url @ paths ! j, bodies ! j) \<in>
           set (dict_of (zip (map (\<lambda>path. base_url @ path) paths) bodies))"
proof -
  let ?urls = "map (\<lambda>path. base_url @ path) paths"
  let ?kvs = "zip ?urls bodies"
  have a: "j < length ?kvs" "?kvs ! j = (base_url @ paths ! j, bodies ! j)"
    using len j(1) by simp_all
  have "fst ` set (drop (Suc j) ?kvs) = set (drop (Suc j) ?urls)"
    using len by (simp add: zip_drop_keys)
  then have "base_url @ paths ! j \<notin> fst ` set (drop (Suc j) ?kvs)"
    using j(2) by (auto simp: drop_map)
  from map_of_rev_no_later [OF a this] show ?thesis by (simp add: dict_of_member)
qed

text \<open>
  Claim C9. When the title element of a detail page is there and its text is empty,
  \<open>_parse_product_info\<close> returns \<open>None\<close> and raises nothing. So when the crawl has
  gathered paths, every detail request has succeeded, no detail page makes the parser
  raise, and the page of a path (the one fetched last for it) has an empty title, the
  list that \<open>scrape\<close> returns has a \<open>None\<close> among its entries.
\<close>

theorem empty_title_yields_none:
  "(product_name markup = Some [] \<longrightarrow> parse_product_info markup url = Inr None) \<and>
   (collect_paths uc net category w = (Inr paths, w1) \<and> paths \<noteq> [] \<and>
    cohort net (length (requests w1)) paths = map Inr bodies \<and>
    (\<forall>b\<in>set bodies. \<forall>url e. parse_product_info b url \<noteq> Inl e) \<and>
    j < length paths \<and> paths ! j \<notin> set (drop (Suc j) paths) \<and>
    product_name (bodies ! j) = Some [] \<longrightarrow>
      (\<exists>records. fst (scrape uc base_url net category w) = Inr (Some records) \<and>
                 None \<in> set records))"
proof (intro conjI impI)
  assume "product_name markup = Some []"
  then show "parse_product_info markup url = Inr None"
    by (simp add: parse_product_info_def)
next
  let ?tasks = "dict_of (zip (map (\<lambda>path. base_url @ path) paths) bodies)"
  assume a: "collect_paths uc net category w = (Inr paths, w1) \<and> paths \<noteq> [] \<and>
    cohort net (length (requests w1)) paths = map Inr bodies \<and>
    (\<forall>b\<in>set bodies. \<forall>url e. parse_product_info b url \<noteq> Inl e) \<and>
    j < length paths \<and> paths ! j \<notin> set (drop (Suc j) paths) \<and>
    product_name (bodies ! j) = Some []"
  then have "length (map Inr bodies :: (exn + page) list) = length paths"
    using cohort_length [of net "length (requests w1)" paths] by simp
  then have len: "length bodies = length paths" by simp
  have "\<forall>(url, b) \<in> set ?tasks. \<forall>e. parse_product_info b url \<noteq> Inl e"
  proof (clarify)
    fix url b e
    assume "(url, b) \<in> set ?tasks" and e: "parse_product_info b url = Inl e"
    from task_of_path [OF len this(1)] len have "b \<in> set bodies" by auto
    with a e show False by blast
  qed
  from parse_tasks_total [OF this] obtain records where r: "parse_tasks ?tasks = Inr records"
    by blast
  have "(base_url @ paths ! j, bodies ! j) \<in> set ?tasks"
    using a path_has_task [OF len, of j base_url] by blast
  from parse_tasks_None [OF r this] a have "None \<in> set records" by blast
  moreover have "fst (scrape uc base_url net category w) = Inr (Some records)"
    using a scrape_success [of uc net category w paths w1 bodies base_url] r by simp
  ultimately show "\<exists>records. fst (scrape uc base_url net category w) = Inr (Some records) \<and>
                 None \<in> set records" by blast
qed


lemma travel_crawl:
  "collect_paths ascii (site example_pages) (u ''Travel'') world0 = (Inr travel_paths, travel_world)"
  by code_simp

lemma travel_details:
  "cohort (site example_pages) (length (requests travel_world)) travel_paths =
     map Inr [book_a, book_b, book_c, book_a]"
  by code_simp

lemma travel_books_parse:
  "\<forall>b\<in>set [book_a, book_b, book_c, book_a]. \<forall>url e. parse_product_info b url \<noteq> Inl e"
  by (simp add: parse_product_info_def rating_token_def book_a_def book_b_def book_c_def
      blank_def u_def)

theorem empty_title_yields_none_witness:
  "product_name book_b = Some [] \<and>
   parse_product_info book_b (example_url @ u ''b_2/index.html'') = Inr None \<and>
   (\<exists>records. fst (scrape ascii example_url (site example_pages) (u ''Travel'') world0) =
        Inr (Some records) \<and> None \<in> set records)"
proof -
  let ?bodies = "[book_a, book_b, book_c, book_a]"
  have t: "product_name book_b = Some []" by (simp add: book_b_def blank_def)
  have j: "(1::nat) < length travel_paths" "travel_paths ! 1 \<notin> set (drop (Suc 1) travel_paths)"
    "product_name (?bodies ! 1) = Some []" "travel_paths \<noteq> []"
    by (simp_all add: travel_paths_def u_def book_b_def blank_def)
  show ?thesis
    using t j travel_crawl travel_details travel_books_parse
      empty_title_yields_none [of book_b "example_url @ u ''b_2/index.html''" ascii
        "site example_pages" "u ''Travel''" world0 travel_paths travel_world ?bodies 1 example_url]
    by blast
qed


text \<open>
  Claim C5, as amended. When the crawl has gathered the paths \<open>paths\<close> and every detail
  request has succeeded, \<open>scrape\<close> has made one request for each member of \<open>paths\<close>, in
  the order of the list and duplicates included; the list it returns has one entry for
  each distinct path, in the order of first occurrence, and the entry is what
  \<open>_parse_product_info\<close> makes of the page fetched last for that path; and it does
  return such a list when no page makes the parser raise.
\<close>

theorem scrape_one_record_per_distinct_path:
  "collect_paths uc net category w = (Inr paths, w1) \<and> paths \<noteq> [] \<and>
   cohort net (length (requests w1)) paths = map Inr bodies \<longrightarrow>
     requests (snd (scrape uc base_url net category w)) = requests w1 @ paths \<and>
     (\<forall>records. fst (scrape uc base_url net category w) = Inr (Some records) \<longrightarrow>
        list_all2
          (\<lambda>path r. \<exists>j<length paths. paths ! j = path \<and> path \<notin> set (drop (Suc j) paths) \<and>
                       parse_product_info (bodies ! j) (base_url @ path) = Inr r)
          (first_occurrences paths) records) \<and>
     ((\<forall>b\<in>set bodies. \<forall>url e. parse_product_info b url \<noteq> Inl e) \<longrightarrow>
        (\<exists>records. fst (scrape uc base_url net category w) = Inr (Some records)))"
proof (intro impI)
  let ?urls = "map (\<lambda>path. base_url @ path) paths"
  let ?tasks = "dict_of (zip ?urls bodies)"
  let ?P = "\<lambda>path r. \<exists>j<length paths. paths ! j = path \<and> path \<notin> set (drop (Suc j) paths) \<and>
                       parse_product_info (bodies ! j) (base_url @ path) = Inr r"
  assume a: "collect_paths uc net category w = (Inr paths, w1) \<and> paths \<noteq> [] \<and>
   cohort net (length (requests w1)) paths = map Inr bodies"
  then have "length (map Inr bodies :: (exn + page) list) = length paths"
    using cohort_length [of net "length (requests w1)" paths] by simp
  then have len: "length bodies = length paths" by simp
  have s: "scrape uc base_url net category w =
      (case parse_tasks ?tasks of
         Inl e \<Rightarrow> (Inl e, w1\<lparr>requests := requests w1 @ paths\<rparr>)
       | Inr records \<Rightarrow> (Inr (Some records), w1\<lparr>requests := requests w1 @ paths\<rparr>))"
    using a scrape_success [of uc net category w paths w1 bodies base_url] by blast
  have r: "requests (snd (scrape uc base_url net category w)) = requests w1 @ paths"
    by (simp add: s split: sum.splits)
  have keys: "map fst ?tasks = map (\<lambda>path. base_url @ path) (first_occurrences paths)"
    using len by (simp add: dict_of_keys first_occurrences_map_inj inj_def)
  have all: "\<forall>records. fst (scrape uc base_url net category w) = Inr (Some records) \<longrightarrow>
        list_all2 ?P (first_occurrences paths) records"
  proof (intro allI impI)
    fix records
    assume "fst (scrape uc base_url net category w) = Inr (Some records)"
    then have "parse_tasks ?tasks = Inr records"
      by (auto simp: s split: sum.splits)
    from parse_tasks_all2 [OF this]
    have l2: "list_all2 (\<lambda>(url, b) r. parse_product_info b url = Inr r) ?tasks records" .
    then have l: "length records = length ?tasks" by (simp add: list_all2_lengthD)
    have lk: "length ?tasks = length (first_occurrences paths)"
      using keys by (metis length_map)
    show "list_all2 ?P (first_occurrences paths) records"
    proof (rule list_all2_all_nthI)
      show "length (first_occurrences paths) = length records" using l lk by simp
    next
      fix i
      assume i: "i < length (first_occurrences paths)"
      obtain url b where t: "?tasks ! i = (url, b)" by (cases "?tasks ! i")
      have il: "i < length ?tasks" using i lk by simp
      then have "fst (?tasks ! i) = map fst ?tasks ! i" by simp
      with keys i t have url: "url = base_url @ first_occurrences paths ! i" by simp
      have "(url, b) \<in> set ?tasks" using il t by (metis nth_mem)
      from task_of_path [OF len this] obtain j where j: "j < length paths"
        "url = base_url @ paths ! j" "b = bodies ! j" "paths ! j \<notin> set (drop (Suc j) paths)"
        by blast
      have "parse_product_info b url = Inr (records ! i)"
        using l2 il t by (auto simp: list_all2_conv_all_nth)
      with j url show "?P (first_occurrences paths ! i) (records ! i)"
        by (intro exI [of _ j]) simp
    qed
  qed
  have ex: "(\<forall>b\<in>set bodies. \<forall>url e. parse_product_info b url \<noteq> Inl e) \<longrightarrow>
        (\<exists>records. fst (scrape uc base_url net category w) = Inr (Some records))"
  proof
    assume nb: "\<forall>b\<in>set bodies. \<forall>url e. parse_product_info b url \<noteq> Inl e"
    have "\<forall>(url, b) \<in> set ?tasks. \<forall>e. parse_product_info b url \<noteq> Inl e"
    proof (clarify)
      fix url b e
      assume "(url, b) \<in> set ?tasks" and e: "parse_product_info b url = Inl e"
      from task_of_path [OF len this(1)] len have "b \<in> set bodies" by auto
      with nb e show False by blast
    qed
    from parse_tasks_total [OF this] obtain records where "parse_tasks ?tasks = Inr records"
      by blast
    then show "\<exists>records. fst (scrape uc base_url net category w) = Inr (Some records)"
      by (simp add: s)
  qed
  from r all ex show "requests (snd (scrape uc base_url net category w)) = requests w1 @ paths \<and>
     (\<forall>records. fst (scrape uc base_url net category w) = Inr (Some records) \<longrightarrow>
        list_all2 ?P (first_occurrences paths) records) \<and>
     ((\<forall>b\<in>set bodies. \<forall>url e. parse_product_info b url \<noteq> Inl e) \<longrightarrow>
        (\<exists>records. fst (scrape uc base_url net category w) = Inr (Some records)))"
    by blast
qed


theorem scrape_one_record_per_distinct_path_witness:
  "requests (snd (scrape ascii example_url (site example_pages) (u ''Travel'') world0)) =
     requests travel_world @ travel_paths \<and>
   first_occurrences travel_paths =
     [u ''a_1/index.html'', u ''b_2/index.html'', u ''c_3/index.html''] \<and>
   (\<exists>records. fst (scrape ascii example_url (site example_pages) (u ''Travel'') world0) =
      Inr (Some records) \<and> length records = 3)"
proof -
  have ne: "travel_paths \<noteq> []" by (simp add: travel_paths_def)
  have fo: "first_occurrences travel_paths =
     [u ''a_1/index.html'', u ''b_2/index.html'', u ''c_3/index.html'']"
    by (simp add: first_occurrences_def travel_paths_def u_def)
  note t = scrape_one_record_per_distinct_path [of ascii "site example_pages" "u ''Travel''" world0
      travel_paths travel_world "[book_a, book_b, book_c, book_a]" example_url]
  from t ne travel_crawl travel_details travel_books_parse
  have r: "requests (snd (scrape ascii example_url (site example_pages) (u ''Travel'') world0)) =
     requests travel_world @ travel_paths"
    by blast
  from t ne travel_crawl travel_details travel_books_parse
  obtain records where rec: "fst (scrape ascii example_url (site example_pages) (u ''Travel'') world0) =
      Inr (Some records)"
    by blast
  with t ne travel_crawl travel_details
  have "list_all2
          (\<lambda>path r. \<exists>j<length travel_paths. travel_paths ! j = path \<and>
                       path \<notin> set (drop (Suc j) travel_paths) \<and>
                       parse_product_info ([book_a, book_b, book_c, book_a] ! j) (example_url @ path) = Inr r)
          (first_occurrences travel_paths) records"
    by blast
  then have "length records = 3" using fo by (simp add: list_all2_lengthD [symmetric])
  with r fo rec show ?thesis by blast
qed

text \<open>
  The crawl of Travel gathers four paths, the first of them twice, and \<open>scrape\<close>
  returns three entries: the claim as stated, one record for each path with duplicates
  kept, fails here.
\<close>

theorem scrape_duplicate_paths_counterexample:
  "fst (collect_paths ascii (site example_pages) (u ''Travel'') world0) =
     Inr [u ''a_1/index.html'', u ''b_2/index.html'', u ''c_3/index.html'', u ''a_1/index.html''] \<and>
   fst (scrape ascii example_url (site example_pages) (u ''Travel'') world0) =
     Inr (Some
       [Some [(u ''Product name'', u ''A''),
              (u ''URL'', u ''https://books.toscrape.com/catalogue/a_1/index.html''),
              (u ''Rating'', u ''Three'')],
        None,
        Some [(u ''Product name'', u ''C''),
              (u ''URL'', u ''https://books.toscrape.com/catalogue/c_3/index.html''),
              (u ''Rating'', u ''One''), (u ''UPC'', u ''c3'')]])"
  by code_simp

section \<open>Where the crawl departs from its description\<close>

lemma except_star_nonempty: "g \<noteq> [] \<Longrightarrow> except_star g \<noteq> []"
  by (auto simp: except_star_def Let_def)

lemma scrape_member_failure:
  assumes "collect_paths uc net category w = (Inr paths, w1)" "paths \<noteq> []"
    and "\<exists>e. Inl e \<in> set (cohort net (length (requests w1)) paths)"
  shows "fst (scrape uc base_url net category w) = Inr None"
proof -
  from assms(3) have f: "failures (cohort net (length (requests w1)) paths) \<noteq> []"
    by (simp add: failures_nonempty_iff)
  show "fst (scrape uc base_url net category w) = Inr None"
    using assms(1,2) f by (simp add: scrape_def task_group_eq Let_def)
qed

text \<open>
  What \<open>_get_page_count\<close> returns: no page without the indicator, the pages from 2 to
  the last digit of the indicator's text, and the \<open>ValueError\<close> of \<open>int\<close> when the last
  character is not a digit.
\<close>

lemma get_page_count_cases:
  "pager_current markup = None \<Longrightarrow> get_page_count uc markup = Inr []"
  "pager_current markup = Some (text @ [c]) \<Longrightarrow> decimal uc c = Some d \<Longrightarrow>
     get_page_count uc markup = Inr [2 ..< d + 1]"
  "pager_current markup = Some (text @ [c]) \<Longrightarrow> decimal uc c = None \<Longrightarrow>
     get_page_count uc markup = Inl (ValueError Invalid_literal_for_int)"
  by (simp_all add: get_page_count_def int_of_char_def)

text \<open>
  Claim C4, at the input where the code departs from it. The first listing page of
  Default Category shows "Page 1 of 12". \<open>_get_page_count\<close> reads the last character
  of that text, the digit 2, and returns the range of page 2 alone; the crawl requests
  the index page, the first listing page and page 2, and returns the paths of two of the
  twelve pages.
\<close>

theorem page_count_last_character:
  "get_page_count ascii (default_page 1) = Inr [2] \<and>
   collect_paths ascii (site example_pages) (u ''Default Category'') world0 =
     (Inr [u ''d_1/index.html'', u ''d_2/index.html''],
      \<lparr>requests = [u ''category/books_1/index.html'',
                   u ''category/books/default_15/index.html'',
                   u ''category/books/default_15/page-2.html''],
       printed = []\<rparr>)"
  by code_simp

text \<open>
  Claim C2, at the inputs where the code departs from it. The product page of the
  category Music has no title element: every request of the detail cohort succeeds, the
  \<open>AttributeError\<close> of \<open>_parse_product_info\<close> is raised in the \<open>else\<close> clause of
  \<open>scrape\<close>, past the \<open>except*\<close> clauses, and leaves \<open>scrape\<close>; nothing is printed. In
  the same way the \<open>TypeError\<close> of \<open>_parse_product_paths\<close> on the second listing page of
  the category Art leaves \<open>_collect_paths\<close>.
\<close>

theorem parse_error_leaves_scrape:
  "scrape ascii example_url (site example_pages) (u ''Music'') world0 =
     (Inl AttributeError,
      \<lparr>requests = [u ''category/books_1/index.html'',
                   u ''category/books/music_14/index.html'', u ''m_5/index.html''],
       printed = []\<rparr>) \<and>
   collect_paths ascii (site example_pages) (u ''Art'') world0 =
     (Inl TypeError,
      \<lparr>requests = [u ''category/books_1/index.html'',
                   u ''category/books/art_25/index.html'',
                   u ''category/books/art_25/page-2.html''],
       printed = []\<rparr>)"
  by code_simp

section \<open>Properties of the currency step\<close>

lemma last_currency_snoc:
  "last_currency (xs @ [x]) = (if is_currency x then Some x else last_currency xs)"
  by (simp add: last_currency_def)

lemma last_currency_None: "last_currency s = None \<longleftrightarrow> \<not> list_ex is_currency s"
  by (auto simp: last_currency_def find_None_iff list_ex_iff)

lemma backtrack_eq: "backtrack s k = last_currency (take (Suc k) s)"
proof (induction k)
  case 0
  then show ?case by (cases s) (simp_all add: last_currency_def)
next
  case (Suc k)
  show ?case
  proof (cases "Suc k < length s")
    case True
    then have "take (Suc (Suc k)) s = take (Suc k) s @ [s ! Suc k]"
      by (simp add: take_Suc_conv_app_nth)
    then show ?thesis using Suc True by (simp add: last_currency_snoc)
  next
    case False
    then show ?thesis using Suc by simp
  qed
qed

lemma match_here_eq: "match_here s = last_currency (takeWhile (\<lambda>c. c \<noteq> 10) s)"
proof -
  let ?l = "takeWhile (\<lambda>c. c \<noteq> 10) s"
  let ?d = "dropWhile (\<lambda>c. c \<noteq> 10) s"
  have s: "s = ?l @ ?d" by simp
  show ?thesis
  proof (cases ?d)
    case Nil
    then have "take (Suc (length ?l)) s = ?l" by (metis s append_Nil2 take_all le_SucI order_refl)
    then show ?thesis by (simp add: match_here_def backtrack_eq)
  next
    case (Cons d ds)
    then have "?d \<noteq> []" by simp
    from hd_dropWhile [OF this] Cons have d: "d = 10" by simp
    have "?l @ ?d = s" by simp
    then have "?l @ d # ds = s" unfolding Cons .
    then have "take (Suc (length ?l)) s = take (Suc (length ?l)) (?l @ d # ds)" by simp
    also have "\<dots> = ?l @ [d]" by simp
    finally show ?thesis
      using d by (simp add: match_here_def backtrack_eq last_currency_snoc is_currency_def)
  qed
qed

lemma split_lines_Cons: "\<exists>l ls. split_lines s = l # ls \<and> l = takeWhile (\<lambda>c. c \<noteq> 10) s"
  by (induction s) (auto split: list.splits)

lemma split_lines_subset: "l \<in> set (split_lines s) \<Longrightarrow> set l \<subseteq> set s"
proof (induction s arbitrary: l)
  case Nil
  then show ?case by simp
next
  case (Cons x xs)
  obtain l' ls' where sp: "split_lines xs = l' # ls'"
    using split_lines_Cons [of xs] by blast
  have ih: "set l' \<subseteq> set xs" "\<And>m. m \<in> set ls' \<Longrightarrow> set m \<subseteq> set xs"
    using Cons.IH sp by simp_all
  show ?case
  proof (cases "x = 10")
    case True
    with Cons.prems sp have "l = [] \<or> l = l' \<or> l \<in> set ls'" by simp
    with ih show ?thesis by auto
  next
    case False
    with Cons.prems sp have "l = x # l' \<or> l \<in> set ls'" by simp
    with ih show ?thesis by auto
  qed
qed

lemma re_search_eq: "re_search s = currency_of s"
proof (induction s)
  case Nil
  then show ?case by (simp add: match_here_def currency_of_def)
next
  case (Cons c cs)
  let ?l = "takeWhile (\<lambda>c. c \<noteq> 10) (c # cs)"
  obtain ls where ls: "split_lines (c # cs) = ?l # ls"
    using split_lines_Cons [of "c # cs"] by blast
  show ?case
  proof (cases "last_currency ?l")
    case (Some x)
    then have "list_ex is_currency ?l" using last_currency_None [of ?l] by simp
    then have "currency_of (c # cs) = Some x"
      using Some ls by (simp add: currency_of_def)
    moreover have "re_search (c # cs) = Some x"
      using Some match_here_eq [of "c # cs"] by simp
    ultimately show ?thesis by simp
  next
    case None
    then have no: "\<not> list_ex is_currency ?l" by (simp add: last_currency_None)
    have r: "re_search (c # cs) = currency_of cs"
      using None match_here_eq [of "c # cs"] Cons.IH by simp
    have "currency_of (c # cs) = currency_of cs"
    proof (cases "c = 10")
      case True
      then show ?thesis by (simp add: currency_of_def)
    next
      case False
      obtain l' ls' where l': "split_lines cs = l' # ls'" "l' = takeWhile (\<lambda>c. c \<noteq> 10) cs"
        using split_lines_Cons [of cs] by blast
      with False no have "\<not> list_ex is_currency l'" by simp
      with False no l' show ?thesis by (simp add: currency_of_def)
    qed
    with r show ?thesis by simp
  qed
qed

lemma currency_of_one_line: "10 \<notin> set s \<Longrightarrow> currency_of s = last_currency s"
proof -
  assume a: "10 \<notin> set s"
  then have t: "takeWhile (\<lambda>c. c \<noteq> 10) s = s" by (auto simp: takeWhile_eq_all_conv)
  have "re_search s = last_currency s"
  proof (cases s)
    case Nil
    then show ?thesis by (simp add: match_here_def last_currency_def)
  next
    case (Cons c cs)
    show ?thesis
    proof (cases "last_currency s")
      case None
      then have "\<not> list_ex is_currency s" by (simp add: last_currency_None)
      obtain ls where "split_lines s = s # ls" using split_lines_Cons [of s] t by auto
      moreover have "ls = []" using a calculation
      proof (induction s arbitrary: ls)
        case Nil then show ?case by simp
      next
        case (Cons x xs) then show ?case by (auto split: list.splits)
      qed
      ultimately have "currency_of s = None"
        using \<open>\<not> list_ex is_currency s\<close> by (simp add: currency_of_def)
      then show ?thesis using None by (simp add: re_search_eq)
    next
      case (Some x)
      then show ?thesis using Cons match_here_eq [of s] t by simp
    qed
  qed
  then show ?thesis by (simp add: re_search_eq)
qed

text \<open>
  Claim C6, as amended. For every row of a table that has the column
  "Price (incl. tax)", the currency step gives the last of the symbols \<open>$\<close>, \<open>\<pounds>\<close>,
  \<open>\<euro>\<close> on the first line of the row's text that has one: for a text of one line, the
  last such symbol of the text. A text without such a symbol, and a cell that is not a
  string, give a missing value; no error is raised.
\<close>

theorem parse_currency_last_symbol:
  "(map_of df (u ''Price (incl. tax)'') = Some col \<longrightarrow>
      parse_currency df =
        Inr (map (\<lambda>c. case c of
                         Str s \<Rightarrow> (case currency_of s of Some x \<Rightarrow> Str [x] | None \<Rightarrow> NaN)
                       | _ \<Rightarrow> NaN) col)) \<and>
   (10 \<notin> set s \<longrightarrow>
      extract_cell (Str s) = (case last_currency s of Some x \<Rightarrow> Str [x] | None \<Rightarrow> NaN)) \<and>
   (\<not> list_ex is_currency s \<longrightarrow> extract_cell (Str s) = NaN)"
proof (intro conjI impI)
  assume a: "map_of df (u ''Price (incl. tax)'') = Some col"
  then have "u ''Price (incl. tax)'' \<in> fst ` set df" by (metis map_of_eq_None_iff option.distinct(1))
  then have "has_column df (u ''Price (incl. tax)'')" by (simp add: has_column_def)
  moreover have "map extract_cell col = map (\<lambda>c. case c of
                         Str s \<Rightarrow> (case currency_of s of Some x \<Rightarrow> Str [x] | None \<Rightarrow> NaN)
                       | _ \<Rightarrow> NaN) col"
    by (rule map_cong) (auto simp: extract_cell_def re_search_eq split: cell.splits)
  ultimately show "parse_currency df =
        Inr (map (\<lambda>c. case c of
                         Str s \<Rightarrow> (case currency_of s of Some x \<Rightarrow> Str [x] | None \<Rightarrow> NaN)
                       | _ \<Rightarrow> NaN) col)"
    using a by (simp add: parse_currency_def)
next
  assume "10 \<notin> set s"
  then show "extract_cell (Str s) = (case last_currency s of Some x \<Rightarrow> Str [x] | None \<Rightarrow> NaN)"
    by (simp add: extract_cell_def re_search_eq currency_of_one_line)
next
  assume n: "\<not> list_ex is_currency s"
  have "currency_of s = None"
  proof (cases "find (list_ex is_currency) (split_lines s)")
    case None
    then show ?thesis by (simp add: currency_of_def)
  next
    case (Some l)
    then have "list_ex is_currency l" by (metis find_Some_iff)
    moreover have "\<And>l. l \<in> set (split_lines s) \<Longrightarrow> set l \<subseteq> set s"
      by (rule split_lines_subset)
    moreover have "l \<in> set (split_lines s)" using Some by (metis find_Some_iff nth_mem)
    ultimately show ?thesis using n by (auto simp: list_ex_iff)
  qed
  then show "extract_cell (Str s) = NaN" by (simp add: extract_cell_def re_search_eq)
qed


lemma two_symbols_column:
  "map_of two_symbols (u ''Price (incl. tax)'') =
      Some [Str (36 # u ''5 or '' @ 163 # u ''4''), Str (u ''51.77''), NaN]"
  by (simp add: two_symbols_def)

theorem parse_currency_last_symbol_witness:
  "parse_currency two_symbols = Inr [Str [163], NaN, NaN] \<and>
   extract_cell (Str (36 # u ''5 or '' @ 163 # u ''4'')) = Str [163] \<and>
   extract_cell (Str (u ''51.77'')) = NaN"
proof -
  have c: "currency_of (36 # u ''5 or '' @ 163 # u ''4'') = Some 163"
    "currency_of (u ''51.77'') = None"
    "last_currency (36 # u ''5 or '' @ 163 # u ''4'') = Some 163"
    by (simp_all add: currency_of_def last_currency_def is_currency_def u_def)
  have n: "10 \<notin> set (36 # u ''5 or '' @ 163 # u ''4'')" "\<not> list_ex is_currency (u ''51.77'')"
    by (simp_all add: is_currency_def u_def)
  have a: "parse_currency two_symbols = Inr [Str [163], NaN, NaN]"
    using two_symbols_column c
      parse_currency_last_symbol [of two_symbols
        "[Str (36 # u ''5 or '' @ 163 # u ''4''), Str (u ''51.77''), NaN]"]
    by simp
  have b: "extract_cell (Str (36 # u ''5 or '' @ 163 # u ''4'')) = Str [163]"
    using n(1) c(3) parse_currency_last_symbol [of _ _ "36 # u ''5 or '' @ 163 # u ''4''"]
    by simp
  have d: "extract_cell (Str (u ''51.77'')) = NaN"
    using n(2) parse_currency_last_symbol [of _ _ "u ''51.77''"] by blast
  from a b d show ?thesis by blast
qed

text \<open>
  The text "$5 or \<pounds>4" has the dollar sign first, and the currency step gives the pound
  sign: the claim as stated, the first symbol, fails here.
\<close>

theorem parse_currency_first_symbol_counterexample:
  "first_currency (36 # u ''5 or '' @ 163 # u ''4'') = Some 36 \<and>
   parse_currency two_symbols = Inr [Str [163], NaN, NaN]"
  by (simp add: first_currency_def parse_currency_def two_symbols_def has_column_def
      extract_cell_def match_here_def is_currency_def u_def)

section \<open>Properties of the price step\<close>

lemma select_columns_Inr:
  "select_columns df names = Inr selected \<Longrightarrow>
   map fst selected = names \<and> (\<forall>(name, col)\<in>set selected. map_of df name = Some col)"
proof (induction names arbitrary: selected)
  case Nil
  then show ?case by simp
next
  case (Cons name names)
  from Cons.prems obtain col cols where "map_of df name = Some col"
    and "select_columns df names = Inr cols" and "selected = (name, col) # cols"
    by (auto split: option.splits sum.splits)
  then show ?case using Cons.IH [of cols] by simp
qed

lemma select_price_columns_has:
  assumes "select_columns df price_columns = Inr selected"
  shows "list_ex (has_column df) price_columns"
proof -
  from assms obtain col where "map_of df (u ''Price (excl. tax)'') = Some col"
    by (auto simp: price_columns_def split: option.splits)
  then have "u ''Price (excl. tax)'' \<in> fst ` set df"
    by (metis map_of_eq_None_iff option.distinct(1))
  then show ?thesis by (simp add: price_columns_def has_column_def)
qed

lemma replace_cell_NaN: "replace_cell uc c = NaN \<longleftrightarrow> c = NaN"
  by (cases c) (simp_all add: replace_cell_def)

lemma isna_replace_column:
  "list_ex (\<lambda>c. c = NaN) (map (replace_cell uc) col) = list_ex (\<lambda>c. c = NaN) col"
  by (induction col) (simp_all add: replace_cell_NaN)

lemma any_isna_replace:
  "any_isna (map (\<lambda>(name, col). (name, map (replace_cell uc) col)) selected) = any_isna selected"
proof (induction selected)
  case Nil
  then show ?case by (simp add: any_isna_def)
next
  case (Cons nc selected)
  obtain name col where nc: "nc = (name, col)" by (cases nc)
  from Cons show ?case by (simp add: any_isna_def nc isna_replace_column)
qed

lemma parse_prices_eq:
  assumes "select_columns df price_columns = Inr selected"
  shows "parse_prices uc df =
     (if any_isna selected
      then Inr (map (\<lambda>(name, col). (name, map (replace_cell uc) col)) selected)
      else astype_float uc (map (\<lambda>(name, col). (name, map (replace_cell uc) col)) selected))"
  using assms select_price_columns_has [OF assms]
  by (simp add: parse_prices_def any_isna_replace)

lemma as_number_astype:
  "as_number uc c = (case astype_float_cell uc (replace_cell uc c) of Inl e \<Rightarrow> None | Inr x \<Rightarrow> Some x)"
  by (cases "replace_cell uc c")
     (auto simp: as_number_def astype_float_cell_def split: option.splits)

lemma astype_float_cells_Inr:
  "\<forall>c\<in>set col. as_number uc c \<noteq> None \<Longrightarrow>
   \<exists>col'. astype_float_cells uc (map (replace_cell uc) col) = Inr col' \<and>
          map Some col' = map (as_number uc) col"
proof (induction col)
  case Nil
  then show ?case by simp
next
  case (Cons c col)
  then obtain col' where c': "astype_float_cells uc (map (replace_cell uc) col) = Inr col'"
    "map Some col' = map (as_number uc) col" by auto
  from Cons.prems obtain x where x: "as_number uc c = Some x" by auto
  then have "astype_float_cell uc (replace_cell uc c) = Inr x"
    by (simp add: as_number_astype split: sum.splits)
  with c' x show ?case by simp
qed

lemma astype_float_Inr:
  "\<forall>(name, col)\<in>set selected. \<forall>c\<in>set col. as_number uc c \<noteq> None \<Longrightarrow>
   \<exists>converted. astype_float uc (map (\<lambda>(name, col). (name, map (replace_cell uc) col)) selected) =
       Inr converted \<and> map fst converted = map fst selected \<and>
     map (\<lambda>(name, col). map Some col) converted =
       map (\<lambda>(name, col). map (as_number uc) col) selected"
proof (induction selected)
  case Nil
  then show ?case by simp
next
  case (Cons nc selected)
  obtain name col where nc: "nc = (name, col)" by (cases nc)
  from Cons obtain converted where
    c: "astype_float uc (map (\<lambda>(name, col). (name, map (replace_cell uc) col)) selected) = Inr converted"
    "map fst converted = map fst selected"
    "map (\<lambda>(name, col). map Some col) converted = map (\<lambda>(name, col). map (as_number uc) col) selected"
    by auto
  from Cons.prems have "\<forall>c\<in>set col. as_number uc c \<noteq> None" by (simp add: nc)
  from astype_float_cells_Inr [OF this] obtain col' where
    "astype_float_cells uc (map (replace_cell uc) col) = Inr col'" "map Some col' = map (as_number uc) col"
    by blast
  with c show ?case by (simp add: nc)
qed

lemma as_number_Num:
  "as_number uc c = Some c' \<Longrightarrow> c \<noteq> NaN \<Longrightarrow> \<exists>r. c' = Num r"
  by (cases c) (auto simp: as_number_def replace_cell_def)

lemma converted_all_Num:
  assumes "map (\<lambda>(name, col). map Some col) converted =
       map (\<lambda>(name, col). map (as_number uc) col) selected"
    and "\<not> any_isna selected"
  shows "\<forall>(name, col)\<in>set converted. \<forall>c\<in>set col. \<exists>r. c = Num r"
proof (clarify)
  fix name col' c'
  assume m: "(name, col') \<in> set converted" and c': "c' \<in> set col'"
  from m obtain i where i: "i < length converted" "converted ! i = (name, col')"
    by (metis in_set_conv_nth)
  from assms(1) have len: "length converted = length selected" by (metis length_map)
  obtain n col where s: "selected ! i = (n, col)" by (cases "selected ! i")
  have "map (\<lambda>(name, col). map Some col) converted ! i =
       map (\<lambda>(name, col). map (as_number uc) col) selected ! i" using assms(1) by simp
  with i len s have eq: "map Some col' = map (as_number uc) col" by simp
  from c' obtain k where k: "k < length col'" "col' ! k = c'" by (metis in_set_conv_nth)
  from eq have "length col' = length col" by (metis length_map)
  with k eq have "as_number uc (col ! k) = Some c'" by (metis nth_map)
  moreover have "col ! k \<noteq> NaN"
  proof
    assume "col ! k = NaN"
    moreover have "col ! k \<in> set col" using k \<open>length col' = length col\<close> by simp
    moreover have "(n, col) \<in> set selected" using s i len by (metis nth_mem)
    ultimately have "any_isna selected" by (auto simp: any_isna_def list_ex_iff)
    with assms(2) show False by simp
  qed
  ultimately show "\<exists>r. c' = Num r" by (rule as_number_Num)
qed

text \<open>
  Claim C3, as amended. For a table that has the three price columns, and whatever the
  Unicode tables of the interpreter: if a cell of the three columns is missing, the
  price step returns the three columns with the replacement made in every string (each
  synonym of zero replaced by 0, every character other than a decimal digit and the dot
  removed) and no cell converted to a number; if no cell is missing and every cell gives
  a decimal after the replacement, it returns the three columns with every cell
  converted to that decimal.
\<close>

theorem parse_prices_all_or_nothing:
  "select_columns df price_columns = Inr selected \<longrightarrow>
     (any_isna selected \<longrightarrow>
        parse_prices uc df = Inr (map (\<lambda>(name, col). (name, map (replace_cell uc) col)) selected)) \<and>
     (\<not> any_isna selected \<and>
      (\<forall>(name, col)\<in>set selected. \<forall>c\<in>set col. as_number uc c \<noteq> None) \<longrightarrow>
        (\<exists>converted. parse_prices uc df = Inr converted \<and>
           map fst converted = price_columns \<and>
           map (\<lambda>(name, col). map Some col) converted =
             map (\<lambda>(name, col). map (as_number uc) col) selected \<and>
           (\<forall>(name, col)\<in>set converted. \<forall>c\<in>set col. \<exists>r. c = Num r)))"
proof (intro impI conjI)
  assume s: "select_columns df price_columns = Inr selected"
  show "parse_prices uc df = Inr (map (\<lambda>(name, col). (name, map (replace_cell uc) col)) selected)"
    if "any_isna selected"
    using that by (simp add: parse_prices_eq [OF s])
next
  assume s: "select_columns df price_columns = Inr selected"
  assume a: "\<not> any_isna selected \<and>
      (\<forall>(name, col)\<in>set selected. \<forall>c\<in>set col. as_number uc c \<noteq> None)"
  then have n: "\<not> any_isna selected"
    and p: "\<forall>(name, col)\<in>set selected. \<forall>c\<in>set col. as_number uc c \<noteq> None" by blast+
  from astype_float_Inr [OF p] obtain converted where
    c: "astype_float uc (map (\<lambda>(name, col). (name, map (replace_cell uc) col)) selected) = Inr converted"
    "map fst converted = map fst selected"
    "map (\<lambda>(name, col). map Some col) converted =
       map (\<lambda>(name, col). map (as_number uc) col) selected"
    by blast
  have "parse_prices uc df = Inr converted" using n c(1) by (simp add: parse_prices_eq [OF s])
  moreover have "map fst converted = price_columns"
    using c(2) select_columns_Inr [OF s] by simp
  moreover note c(3) converted_all_Num [OF c(3) n]
  ultimately show "\<exists>converted. parse_prices uc df = Inr converted \<and>
           map fst converted = price_columns \<and>
           map (\<lambda>(name, col). map Some col) converted =
             map (\<lambda>(name, col). map (as_number uc) col) selected \<and>
           (\<forall>(name, col)\<in>set converted. \<forall>c\<in>set col. \<exists>r. c = Num r)"
    by blast
qed


lemmas table_eval =
  price_columns_def prices_with_gap_def prices_complete_def prices_unparsable_def
  replace_cell_def zero_synonyms_def ci_prefix_def ascii_def lower_cp_def numeric_cp_def
  is_digit_def any_isna_def u_def

lemma prices_with_gap_selected:
  "select_columns prices_with_gap price_columns =
     Inr [(u ''Price (excl. tax)'', [Str (163 # u ''51.77''), NaN]),
          (u ''Price (incl. tax)'', [Str (163 # u ''51.77''), NaN]),
          (u ''Tax'', [Str (163 # u ''0.00''), NaN])]"
  by (simp add: table_eval)

lemma prices_complete_selected:
  "select_columns prices_complete price_columns = Inr prices_complete"
  by (simp add: table_eval)

lemma prices_complete_numbers:
  "map (\<lambda>(name, col). map (as_number ascii) col) prices_complete =
     [[Some (Num (5177 / 100)), Some (Num 0)], [Some (Num (5177 / 100)), Some (Num 0)],
      [Some (Num 0), Some (Num 0)]]"
  by (simp add: table_eval as_number_def float_of_str_def)

lemma prices_wide_selected:
  "select_columns prices_wide price_columns = Inr prices_wide"
  by (simp add: price_columns_def prices_wide_def u_def)

lemma prices_wide_numbers:
  "map (\<lambda>(name, col). map (as_number wide) col) prices_wide =
     [[Some (Num 50)], [Some (Num 13)], [Some (Num 0)]]"
  by (simp add: prices_wide_def wide_def table_eval as_number_def float_of_str_def)

theorem parse_prices_all_or_nothing_witness:
  "parse_prices ascii prices_with_gap =
     Inr [(u ''Price (excl. tax)'', [Str (u ''51.77''), NaN]),
          (u ''Price (incl. tax)'', [Str (u ''51.77''), NaN]),
          (u ''Tax'', [Str (u ''0.00''), NaN])] \<and>
   (\<exists>converted. parse_prices ascii prices_complete = Inr converted \<and>
      map fst converted = price_columns \<and>
      map (\<lambda>(name, col). map Some col) converted =
        [[Some (Num (5177 / 100)), Some (Num 0)], [Some (Num (5177 / 100)), Some (Num 0)],
         [Some (Num 0), Some (Num 0)]]) \<and>
   (\<exists>converted. parse_prices wide prices_wide = Inr converted \<and>
      map (\<lambda>(name, col). map Some col) converted =
        [[Some (Num 50)], [Some (Num 13)], [Some (Num 0)]])"
proof -
  let ?gap = "[(u ''Price (excl. tax)'', [Str (163 # u ''51.77''), NaN]),
          (u ''Price (incl. tax)'', [Str (163 # u ''51.77''), NaN]),
          (u ''Tax'', [Str (163 # u ''0.00''), NaN])]"
  have g: "any_isna ?gap" by (simp add: any_isna_def)
  have r: "map (\<lambda>(name, col). (name, map (replace_cell ascii) col)) ?gap =
     [(u ''Price (excl. tax)'', [Str (u ''51.77''), NaN]),
      (u ''Price (incl. tax)'', [Str (u ''51.77''), NaN]),
      (u ''Tax'', [Str (u ''0.00''), NaN])]"
    by (simp add: table_eval)
  have a: "parse_prices ascii prices_with_gap =
     Inr [(u ''Price (excl. tax)'', [Str (u ''51.77''), NaN]),
          (u ''Price (incl. tax)'', [Str (u ''51.77''), NaN]),
          (u ''Tax'', [Str (u ''0.00''), NaN])]"
    using parse_prices_all_or_nothing [of prices_with_gap ?gap ascii] prices_with_gap_selected g r
    by simp
  have n: "\<not> any_isna prices_complete" by (simp add: table_eval)
  have p: "\<forall>(name, col)\<in>set prices_complete. \<forall>c\<in>set col. as_number ascii c \<noteq> None"
    by (simp add: table_eval as_number_def float_of_str_def)
  from parse_prices_all_or_nothing [of prices_complete prices_complete ascii] prices_complete_selected
    n p
  obtain converted where c: "parse_prices ascii prices_complete = Inr converted"
    "map fst converted = price_columns"
    "map (\<lambda>(name, col). map Some col) converted =
       map (\<lambda>(name, col). map (as_number ascii) col) prices_complete"
    by blast
  have b: "\<exists>converted. parse_prices ascii prices_complete = Inr converted \<and>
      map fst converted = price_columns \<and>
      map (\<lambda>(name, col). map Some col) converted =
        [[Some (Num (5177 / 100)), Some (Num 0)], [Some (Num (5177 / 100)), Some (Num 0)],
         [Some (Num 0), Some (Num 0)]]"
    using c by (intro exI [of _ converted]) (simp add: prices_complete_numbers)
  have n': "\<not> any_isna prices_wide" by (simp add: prices_wide_def any_isna_def)
  have p': "\<forall>(name, col)\<in>set prices_wide. \<forall>c\<in>set col. as_number wide c \<noteq> None"
    by (simp add: prices_wide_def wide_def table_eval as_number_def float_of_str_def)
  from parse_prices_all_or_nothing [of prices_wide prices_wide wide] prices_wide_selected n' p'
  obtain converted' where c': "parse_prices wide prices_wide = Inr converted'"
    "map (\<lambda>(name, col). map Some col) converted' =
       map (\<lambda>(name, col). map (as_number wide) col) prices_wide"
    by blast
  have b': "\<exists>converted. parse_prices wide prices_wide = Inr converted \<and>
      map (\<lambda>(name, col). map Some col) converted =
        [[Some (Num 50)], [Some (Num 13)], [Some (Num 0)]]"
    using c' by (intro exI [of _ converted']) (simp add: prices_wide_numbers)
  from a b b' show ?thesis by blast
qed

text \<open>
  A table whose second record has no prices: the step returns strings, so nothing is
  converted, and the strings are not the original ones (the pound sign is gone). The
  claim as stated, either the original strings or decimals, fails here.
\<close>

theorem parse_prices_missing_cell_counterexample:
  "select_columns prices_with_gap price_columns =
     Inr [(u ''Price (excl. tax)'', [Str (163 # u ''51.77''), NaN]),
          (u ''Price (incl. tax)'', [Str (163 # u ''51.77''), NaN]),
          (u ''Tax'', [Str (163 # u ''0.00''), NaN])] \<and>
   parse_prices ascii prices_with_gap =
     Inr [(u ''Price (excl. tax)'', [Str (u ''51.77''), NaN]),
          (u ''Price (incl. tax)'', [Str (u ''51.77''), NaN]),
          (u ''Tax'', [Str (u ''0.00''), NaN])]"
  by (simp add: parse_prices_def has_column_def table_eval)

text \<open>
  When no cell is missing and a cell gives no decimal after the replacement (here
  "n/a", which becomes the empty string), \<open>astype(float)\<close> raises.
\<close>

lemma parse_prices_unparsable_raises:
  "parse_prices ascii prices_unparsable = Inl (ValueError Could_not_convert_string_to_float)"
  by (simp add: parse_prices_def has_column_def table_eval astype_float_cell_def float_of_str_def)

end
